theory Spec2Isabelle
  imports Complex_Main "HOL-Library.Sublist"
begin

section \<open>Package kafkametrics: broker metrics reconciliation\<close>

text \<open>
  A shallow embedding of \<^verbatim>\<open>src/kafkametrics/kafkametrics.go\<close>. Go strings are byte
  sequences and are modelled as \<^typ>\<open>string\<close> (lists of 8-bit characters). Go's
  \<^verbatim>\<open>int\<close> is taken to be 64 bits wide and is modelled as \<^typ>\<open>int\<close>; the only place
  where its range matters is the result of \<^verbatim>\<open>strconv.Atoi\<close>, where the clamping is
  written out. A run-time panic is the value \<open>Panic\<close> of the result type.
\<close>

subsection \<open>The Go standard library functions the package calls\<close>

text \<open>
  \<^verbatim>\<open>strings.HasPrefix(s, prefix)\<close> is
  \<^verbatim>\<open>len(s) >= len(prefix) && s[:len(prefix)] == prefix\<close>.
\<close>

definition HasPrefix :: "string \<Rightarrow> string \<Rightarrow> bool" where
  "HasPrefix s p \<longleftrightarrow> length p \<le> length s \<and> take (length p) s = p"

text \<open>
  \<^verbatim>\<open>strings.Split(s, sep)\<close> for a separator of one byte (the package only calls it with
  \<^verbatim>\<open>":"\<close> and \<^verbatim>\<open>","\<close>): the pieces of \<open>s\<close> between the occurrences of the
  separator, one more piece than there are separators, so never an empty slice (the
  case of an empty list in the second equation does not occur).
\<close>

fun Split :: "string \<Rightarrow> char \<Rightarrow> string list" where
  "Split [] sep = [[]]"
| "Split (c # s) sep =
     (if c = sep then [] # Split s sep
      else (case Split s sep of [] \<Rightarrow> [[c]] | p # ps \<Rightarrow> (c # p) # ps))"

subsection \<open>valFromTags and tagValFromScope\<close>

text \<open>
  The loop of \<^verbatim>\<open>valFromTags\<close>: the value of the local \<^verbatim>\<open>v\<close> when the loop ends.
  \<^verbatim>\<open>v\<close> starts as the nil slice and is assigned at the first tag with the prefix
  \<^verbatim>\<open>key+":"\<close>, where the loop breaks.
\<close>

fun valFromTags_v :: "string list \<Rightarrow> string \<Rightarrow> string list" where
  "valFromTags_v [] key = []"
| "valFromTags_v (tag # tags) key =
     (if HasPrefix tag (key @ '':'') then Split tag CHR '':''
      else valFromTags_v tags key)"

definition valFromTags :: "string list \<Rightarrow> string \<Rightarrow> string" where
  "valFromTags tags key =
     (let v = valFromTags_v tags key in if length v > 1 then v ! 1 else [])"

definition tagValFromScope :: "string \<Rightarrow> string \<Rightarrow> string" where
  "tagValFromScope scope tag = valFromTags (Split scope CHR '','') tag"

subsection \<open>strconv.Atoi and the verb %d of fmt.Sprintf\<close>

datatype NumError = ErrSyntax | ErrRange

definition maxUint64 :: nat where
  "maxUint64 = 2 ^ 64 - 1"

definition isDigit :: "char \<Rightarrow> bool" where
  "isDigit c \<longleftrightarrow> 48 \<le> (of_char c :: nat) \<and> (of_char c :: nat) \<le> 57"

definition digitVal :: "char \<Rightarrow> nat" where
  "digitVal c = of_char c - 48"

text \<open>
  The loop of \<^verbatim>\<open>strconv.ParseUint(s, 10, 64)\<close> over the bytes of \<open>s\<close>, with the
  accumulator \<open>n\<close>. A byte that is not a decimal digit ends it with a syntax error and
  the value 0; an overflow ends it at once with a range error and the largest value,
  before the bytes that follow are looked at. The cutoff is
  \<^verbatim>\<open>maxUint64/10 + 1\<close>; Go detects the overflow of \<^verbatim>\<open>n*10 + d\<close> by the wrapped sum
  being smaller than \<open>n\<close>, which is the sum exceeding \<open>maxUint64\<close>.
\<close>

fun ParseUint_loop :: "nat \<Rightarrow> string \<Rightarrow> nat \<times> NumError option" where
  "ParseUint_loop n [] = (n, None)"
| "ParseUint_loop n (c # s) =
     (if \<not> isDigit c then (0, Some ErrSyntax)
      else if n \<ge> maxUint64 div 10 + 1 then (maxUint64, Some ErrRange)
      else if n * 10 + digitVal c > maxUint64 then (maxUint64, Some ErrRange)
      else ParseUint_loop (n * 10 + digitVal c) s)"

definition ParseUint :: "string \<Rightarrow> nat \<times> NumError option" where
  "ParseUint s = (if s = [] then (0, Some ErrSyntax) else ParseUint_loop 0 s)"

text \<open>
  \<^verbatim>\<open>strconv.ParseInt(s, 10, 0)\<close> with 64-bit \<^verbatim>\<open>int\<close>: an optional sign, then
  \<^verbatim>\<open>ParseUint\<close>; a syntax error gives 0, a value out of range gives the nearest bound
  together with a range error.
\<close>

definition ParseInt :: "string \<Rightarrow> int \<times> NumError option" where
  "ParseInt s =
     (if s = [] then (0, Some ErrSyntax)
      else
        let neg = (hd s = CHR ''-'');
            body = (if hd s = CHR ''+'' \<or> hd s = CHR ''-'' then tl s else s);
            r = ParseUint body;
            un = fst r;
            err = snd r
        in if err = Some ErrSyntax then (0, err)
           else if \<not> neg \<and> un \<ge> 2 ^ 63 then (2 ^ 63 - 1, Some ErrRange)
           else if neg \<and> un > 2 ^ 63 then (- (2 ^ 63), Some ErrRange)
           else (if neg then - int un else int un, None))"

text \<open>
  \<^verbatim>\<open>strconv.Atoi(s)\<close> is \<^verbatim>\<open>ParseInt(s, 10, 0)\<close> converted to \<^verbatim>\<open>int\<close> (its fast
  path for short strings computes the same result).
\<close>

definition Atoi :: "string \<Rightarrow> int \<times> NumError option" where
  "Atoi s = ParseInt s"

text \<open>The verb \<^verbatim>\<open>%d\<close> of \<^verbatim>\<open>fmt.Sprintf\<close> on an \<^verbatim>\<open>int\<close>: decimal, a minus sign
  for a negative number, no padding.\<close>

fun formatNat :: "nat \<Rightarrow> string" where
  "formatNat n =
     (if n < 10 then [char_of (48 + n)]
      else formatNat (n div 10) @ [char_of (48 + n mod 10)])"

declare formatNat.simps [simp del]

definition formatInt :: "int \<Rightarrow> string" where
  "formatInt i = (if i < 0 then CHR ''-'' # formatNat (nat (- i)) else formatNat (nat i))"

subsection \<open>Types of the package\<close>

record Config =
  APIKey :: string
  AppKey :: string
  NetworkTXQuery :: string
  BrokerIDTag :: string
  MetricsWindow :: int

text \<open>
  \<^verbatim>\<open>Broker\<close>. The type \<open>'f\<close> stands for \<^verbatim>\<open>float64\<close>: the package only divides such
  values, and nothing below depends on what the division computes.
\<close>

record 'f Broker =
  ID :: int
  Host :: string
  InstanceType :: string
  NetTX :: 'f

text \<open>\<^verbatim>\<open>APIError{request, err}\<close> and \<^verbatim>\<open>PartialResults{err}\<close>, with their \<^verbatim>\<open>Error()\<close>
  methods.\<close>

datatype error = APIError string string | PartialResults string

fun Error :: "error \<Rightarrow> string" where
  "Error (APIError request err) = ''API error ['' @ request @ '']: '' @ err"
| "Error (PartialResults err) = err"

text \<open>The outcome of a function that can panic.\<close>

datatype 'a result = Panic | Returned 'a

subsection \<open>createNetTXQuery\<close>

definition createNetTXQuery :: "Config \<Rightarrow> string" where
  "createNetTXQuery c =
     NetworkTXQuery c @ (''.rollup(avg, '' @ formatInt (MetricsWindow c) @ '')'')"

subsection \<open>brokersFromSeries\<close>

text \<open>
  Of \<^verbatim>\<open>dd.Series\<close> the function reads \<^verbatim>\<open>GetScope()\<close> and \<^verbatim>\<open>Points\<close>. A point is a
  pair of pointers to \<^verbatim>\<open>float64\<close> (the source dereferences \<^verbatim>\<open>ts.Points[0][1]\<close>);
  \<open>None\<close> is the nil pointer, whose dereference panics.
\<close>

record 'f Series =
  Scope :: string
  Points :: "('f option \<times> 'f option) list"

text \<open>
  The loop of \<^verbatim>\<open>brokersFromSeries\<close> with the slice \<^verbatim>\<open>bs\<close> built so far. \<open>Inl\<close> is the
  return of \<^verbatim>\<open>nil\<close> with an error, \<open>Inr\<close> the return of the slice with no error. Every
  \<^verbatim>\<open>&Broker{...}\<close> is a new object, so the list of records stands for the slice of
  pointers; the fields the literal leaves out have their zero values.
\<close>

fun brokersFromSeries_loop ::
  "'f::{inverse,numeral} Broker list \<Rightarrow> 'f Series list \<Rightarrow> (error + 'f Broker list) result" where
  "brokersFromSeries_loop bs [] = Returned (Inr bs)"
| "brokersFromSeries_loop bs (ts # s) =
     (let host = tagValFromScope (Scope ts) ''host'' in
      case Points ts of
        [] \<Rightarrow> Returned (Inl (PartialResults (''no points for host '' @ host)))
      | p # _ \<Rightarrow>
          (case snd p of
             None \<Rightarrow> Panic
           | Some v \<Rightarrow>
               brokersFromSeries_loop
                 (bs @ [\<lparr>ID = 0, Host = host, InstanceType = [], NetTX = v / 1024 / 1024\<rparr>]) s))"

definition brokersFromSeries ::
  "'f::{inverse,numeral} Series list \<Rightarrow> (error + 'f Broker list) result" where
  "brokersFromSeries s = brokersFromSeries_loop [] s"

subsection \<open>populateFromTagMap\<close>

text \<open>
  The brokers are reached through pointers, and \<^verbatim>\<open>populateFromTagMap\<close> writes through
  them, so the objects live in a heap: a pointer is an address, the heap gives the
  \<^verbatim>\<open>Broker\<close> at each address. \<^verbatim>\<open>BrokerMetrics\<close> maps an \<^verbatim>\<open>int\<close> to a pointer; reading
  a key that is not in the map gives the nil pointer.
\<close>

type_synonym addr = nat

type_synonym BrokerMetrics = "int \<rightharpoonup> addr"

text \<open>The state of one pass: the heap, the receiver \<^verbatim>\<open>bm\<close> and the buffer
  \<^verbatim>\<open>missingTags\<close>.\<close>

record 'f pass =
  heap :: "addr \<Rightarrow> 'f Broker"
  metrics :: BrokerMetrics
  missingTags :: string

text \<open>The first half of the loop body, for the broker \<open>b\<close> with the host tags \<open>ht\<close>:
  the identity tag.\<close>

definition identityStep :: "string \<Rightarrow> 'f pass \<Rightarrow> addr \<Rightarrow> string list \<Rightarrow> 'f pass" where
  "identityStep btag st b ht =
     (let ids = valFromTags ht btag in
      if ids \<noteq> [] then
        let id = fst (Atoi ids) in
        st\<lparr>heap := (heap st)(b := (heap st b)\<lparr>ID := id\<rparr>),
           metrics := (metrics st)(id \<mapsto> b)\<rparr>
      else
        st\<lparr>missingTags := missingTags st @ ('' '' @ btag @ '':'' @ Host (heap st b))\<rparr>)"

text \<open>The second half: the instance type. \<^verbatim>\<open>bm[b.ID].InstanceType = it\<close> writes through
  the pointer stored under the key \<^verbatim>\<open>b.ID\<close>, and panics when there is none.\<close>

definition instanceTypeStep :: "'f pass \<Rightarrow> addr \<Rightarrow> string list \<Rightarrow> 'f pass result" where
  "instanceTypeStep st b ht =
     (let it = valFromTags ht ''instance-type'' in
      if it \<noteq> [] then
        (case metrics st (ID (heap st b)) of
           None \<Rightarrow> Panic
         | Some p \<Rightarrow> Returned (st\<lparr>heap := (heap st)(p := (heap st p)\<lparr>InstanceType := it\<rparr>)\<rparr>))
      else
        Returned (st\<lparr>missingTags := missingTags st @ ('' instance_type:'' @ Host (heap st b))\<rparr>))"

definition populateStep :: "string \<Rightarrow> 'f pass \<Rightarrow> addr \<times> string list \<Rightarrow> 'f pass result" where
  "populateStep btag st e = instanceTypeStep (identityStep btag st (fst e) (snd e)) (fst e) (snd e)"

text \<open>
  The loop over the map \<^verbatim>\<open>t\<close>. Go visits the entries of a map in an order it does not
  specify, each once; the list is the entries in the order of the visit, and the keys
  of a map are distinct.
\<close>

fun populateLoop :: "string \<Rightarrow> 'f pass \<Rightarrow> (addr \<times> string list) list \<Rightarrow> 'f pass result" where
  "populateLoop btag st [] = Returned st"
| "populateLoop btag st (e # t) =
     (case populateStep btag st e of
        Panic \<Rightarrow> Panic
      | Returned st' \<Rightarrow> populateLoop btag st' t)"

text \<open>
  \<^verbatim>\<open>populateFromTagMap\<close> on the heap \<open>h\<close> and the receiver \<open>bm\<close> (a map that is not
  nil, as its caller makes it): the heap and the receiver after the pass, and the error
  returned.
\<close>

definition populateFromTagMap ::
  "(addr \<Rightarrow> 'f Broker) \<Rightarrow> BrokerMetrics \<Rightarrow> (addr \<times> string list) list \<Rightarrow> string \<Rightarrow>
     ((addr \<Rightarrow> 'f Broker) \<times> BrokerMetrics \<times> error option) result" where
  "populateFromTagMap h bm t btag =
     (case populateLoop btag \<lparr>heap = h, metrics = bm, missingTags = []\<rparr> t of
        Panic \<Rightarrow> Panic
      | Returned st \<Rightarrow>
          Returned (heap st, metrics st,
            if missingTags st \<noteq> [] then
              Some (PartialResults (''Host tags missing for: '' @ missingTags st))
            else None))"

subsection \<open>getHostTagMap and brokerMetricsFromList\<close>

text \<open>
  \<^verbatim>\<open>getHostTagMap\<close>. The call \<^verbatim>\<open>k.c.GetHostTags(b.Host, "")\<close> of the Datadog client is
  the parameter \<open>GetHostTags\<close>, from a host name to the tags, or \<open>None\<close> when the client
  returns an error.
\<close>

fun getHostTagMap_loop ::
  "(string \<Rightarrow> string list option) \<Rightarrow> (addr \<Rightarrow> 'f Broker) \<Rightarrow> (addr \<rightharpoonup> string list) \<Rightarrow>
     addr list \<Rightarrow> error + (addr \<rightharpoonup> string list)" where
  "getHostTagMap_loop GetHostTags h brokers [] = Inr brokers"
| "getHostTagMap_loop GetHostTags h brokers (b # l) =
     (case GetHostTags (Host (h b)) of
        None \<Rightarrow>
          Inl (APIError ''host tags'' (''Error requesting host tags for '' @ Host (h b)))
      | Some ht \<Rightarrow> getHostTagMap_loop GetHostTags h (brokers(b \<mapsto> ht)) l)"

definition getHostTagMap ::
  "(string \<Rightarrow> string list option) \<Rightarrow> (addr \<Rightarrow> 'f Broker) \<Rightarrow> addr list \<Rightarrow>
     error + (addr \<rightharpoonup> string list)" where
  "getHostTagMap GetHostTags h l = getHostTagMap_loop GetHostTags h Map.empty l"

text \<open>The entries of the map \<open>tags\<close> in the order \<open>visit\<close> of its keys.\<close>

definition entries :: "(addr \<rightharpoonup> string list) \<Rightarrow> addr list \<Rightarrow> (addr \<times> string list) list" where
  "entries tags visit =
     List.map_filter (\<lambda>b. case tags b of None \<Rightarrow> None | Some ht \<Rightarrow> Some (b, ht)) visit"

text \<open>
  \<^verbatim>\<open>brokerMetricsFromList\<close> with the tag of \<^verbatim>\<open>k.brokerIDTag\<close>. \<open>visit\<close> is the order in
  which the loop of \<^verbatim>\<open>populateFromTagMap\<close> visits the keys of the tag map. The result is
  the heap after the call and the pair returned: \<open>None\<close> for the nil map.
\<close>

definition brokerMetricsFromList ::
  "(string \<Rightarrow> string list option) \<Rightarrow> addr list \<Rightarrow> string \<Rightarrow> (addr \<Rightarrow> 'f Broker) \<Rightarrow> addr list \<Rightarrow>
     ((addr \<Rightarrow> 'f Broker) \<times> BrokerMetrics option \<times> error option) result" where
  "brokerMetricsFromList GetHostTags visit btag h l =
     (case getHostTagMap GetHostTags h l of
        Inl err \<Rightarrow> Returned (h, None, Some err)
      | Inr tags \<Rightarrow>
          (case populateFromTagMap h Map.empty (entries tags visit) btag of
             Panic \<Rightarrow> Panic
           | Returned r \<Rightarrow>
               (case snd (snd r) of
                  Some err \<Rightarrow> Returned (fst r, None, Some err)
                | None \<Rightarrow> Returned (fst r, Some (fst (snd r)), None))))"

subsection \<open>Notions used to state the properties\<close>

text \<open>The value of a string of decimal digits, and of a decimal numeral with an optional
  minus sign.\<close>

definition decimalNat :: "string \<Rightarrow> nat" where
  "decimalNat s = foldl (\<lambda>n c. n * 10 + digitVal c) 0 s"

definition decimalInt :: "string \<Rightarrow> int" where
  "decimalInt s =
     (case s of
        [] \<Rightarrow> 0
      | c # ds \<Rightarrow> if c = CHR ''-'' then - int (decimalNat ds) else int (decimalNat s))"

text \<open>
  The decimal numeral of an integer \<open>w\<close>: a minus sign exactly when \<open>w\<close> is negative,
  then at least one digit, digits only, no leading zero unless the digit string is one
  digit long, and the digits have the value of \<open>\<bar>w\<bar>\<close>. It is stated without reference to
  the function that prints a number.
\<close>

definition decimalNumeral :: "string \<Rightarrow> int \<Rightarrow> bool" where
  "decimalNumeral d w \<longleftrightarrow>
     (let ds = (if w < 0 then drop 1 d else d) in
      d = (if w < 0 then ''-'' else []) @ ds \<and> ds \<noteq> [] \<and> list_all isDigit ds \<and>
      (length ds = 1 \<or> hd ds \<noteq> CHR ''0'') \<and> decimalNat ds = nat \<bar>w\<bar>)"

text \<open>What the first half of the loop body of \<^verbatim>\<open>populateFromTagMap\<close> does to the map,
  and what one turn of the loop appends to \<^verbatim>\<open>missingTags\<close> for a broker of the given
  host.\<close>

definition parsedID :: "string \<Rightarrow> string list \<Rightarrow> int" where
  "parsedID btag ht = fst (Atoi (valFromTags ht btag))"

definition insertIdentity :: "string \<Rightarrow> BrokerMetrics \<Rightarrow> addr \<times> string list \<Rightarrow> BrokerMetrics" where
  "insertIdentity btag m e =
     (if valFromTags (snd e) btag \<noteq> [] then m(parsedID btag (snd e) \<mapsto> fst e) else m)"

definition report :: "string \<Rightarrow> string \<Rightarrow> string list \<Rightarrow> string" where
  "report btag host ht =
     (if valFromTags ht btag \<noteq> [] then [] else '' '' @ btag @ '':'' @ host) @
     (if valFromTags ht ''instance-type'' \<noteq> [] then [] else '' instance_type:'' @ host)"

text \<open>The invariant of \<^verbatim>\<open>BrokerMetrics\<close>: the broker stored under a key has that key
  as its \<^verbatim>\<open>ID\<close>.\<close>

definition keyIsID :: "'f pass \<Rightarrow> bool" where
  "keyIsID st \<longleftrightarrow> (\<forall>k a. metrics st k = Some a \<longrightarrow> ID (heap st a) = k)"

text \<open>A heap of three brokers and a tag source, for the examples.\<close>

definition exampleGetHostTags :: "string \<Rightarrow> string list option" where
  "exampleGetHostTags host = Some [''broker_id:3'']"


definition exampleHeap :: "addr \<Rightarrow> real Broker" where
  "exampleHeap a =
     \<lparr>ID = 0,
      Host = (if a = 0 then ''broker-1'' else if a = 1 then ''broker-2'' else ''broker-3''),
      InstanceType = [], NetTX = 100\<rparr>"

section \<open>Properties\<close>

subsection \<open>Splitting and the tag extractor\<close>

lemma Split_not_Nil: "Split s sep \<noteq> []"
  by (induction s) (auto split: list.splits)

lemma Split_no_sep: "p \<in> set (Split s sep) \<Longrightarrow> sep \<notin> set p"
  by (induction s arbitrary: p) (auto split: list.splits if_splits)

lemma Split_hd: "hd (Split s sep) = takeWhile (\<lambda>c. c \<noteq> sep) s"
  by (induction s) (auto simp: Split_not_Nil split: list.splits)

lemma Split_append: "sep \<notin> set a \<Longrightarrow> Split (a @ sep # r) sep = a # Split r sep"
  by (induction a) (auto split: list.splits)

lemma Split_second:
  "sep \<in> set s \<Longrightarrow>
     length (Split s sep) > 1 \<and>
     Split s sep ! 1 = takeWhile (\<lambda>c. c \<noteq> sep) (tl (dropWhile (\<lambda>c. c \<noteq> sep) s))"
proof -
  assume "sep \<in> set s"
  then obtain a r where s: "s = a @ sep # r" and a: "sep \<notin> set a"
    by (meson split_list_first)
  have d: "dropWhile (\<lambda>c. c \<noteq> sep) s = sep # r"
    using a unfolding s by (subst dropWhile_append2) auto
  have "Split s sep = a # Split r sep"
    using a by (simp add: s Split_append)
  moreover have "Split r sep \<noteq> []" by (rule Split_not_Nil)
  ultimately show ?thesis
    using Split_hd [of r sep] d by (cases "Split r sep") auto
qed

lemma HasPrefix_iff: "HasPrefix t p \<longleftrightarrow> (\<exists>rest. t = p @ rest)"
  unfolding HasPrefix_def
  by (metis append_eq_conv_conj append_take_drop_id length_append le_add1)

lemma HasPrefix_colon: "HasPrefix t (key @ '':'') \<Longrightarrow> CHR '':'' \<in> set t"
  by (auto simp: HasPrefix_iff)

lemma valFromTags_v_none:
  "\<forall>t\<in>set tags. \<not> HasPrefix t (key @ '':'') \<Longrightarrow> valFromTags_v tags key = []"
  by (induction tags) auto

lemma valFromTags_v_first:
  "\<forall>u\<in>set pre. \<not> HasPrefix u (key @ '':'') \<Longrightarrow> HasPrefix t (key @ '':'') \<Longrightarrow>
     valFromTags_v (pre @ t # post) key = Split t CHR '':''"
  by (induction pre) auto

lemma valFromTags_first:
  assumes "\<forall>u\<in>set pre. \<not> HasPrefix u (key @ '':'')" and "HasPrefix t (key @ '':'')"
  shows "valFromTags (pre @ t # post) key =
           takeWhile (\<lambda>c. c \<noteq> CHR '':'') (tl (dropWhile (\<lambda>c. c \<noteq> CHR '':'') t))"
  using Split_second [OF HasPrefix_colon [OF assms(2)]]
  by (simp add: valFromTags_def valFromTags_v_first [OF assms])

lemma valFromTags_v_pieces: "p \<in> set (valFromTags_v tags key) \<Longrightarrow> CHR '':'' \<notin> set p"
  by (induction tags) (auto dest: Split_no_sep split: if_splits)

lemma valFromTags_colon_free: "CHR '':'' \<notin> set (valFromTags tags key)"
proof (cases "length (valFromTags_v tags key) > 1")
  case True
  then have "valFromTags_v tags key ! 1 \<in> set (valFromTags_v tags key)"
    by (intro nth_mem)
  then have "CHR '':'' \<notin> set (valFromTags_v tags key ! 1)"
    by (rule valFromTags_v_pieces)
  then show ?thesis
    using True by (simp add: valFromTags_def)
next
  case False
  then show ?thesis by (simp add: valFromTags_def)
qed

lemma filter_singleton_split:
  "filter P xs = [t] \<Longrightarrow> \<exists>pre post. xs = pre @ t # post \<and> (\<forall>u\<in>set pre. \<not> P u) \<and> P t"
  by (metis Cons_eq_filterD)

lemma valFromTags_v_drop_colonless:
  "valFromTags_v (filter (\<lambda>t. CHR '':'' \<in> set t) tags) key = valFromTags_v tags key"
  by (induction tags) (auto dest: HasPrefix_colon)

subsection \<open>Claims about the tag extractor\<close>

text \<open>
  Claim C10. For every tag list and key, the value \<^verbatim>\<open>valFromTags\<close> returns contains no
  colon. At the first tag with the prefix \<^verbatim>\<open>key:\<close> it returns the segment between
  the first and the second colon of the whole tag (or up to the end of the tag when it
  has one colon only), not the whole remainder: for the tag \<^verbatim>\<open>url:http://x\<close> and the
  key \<^verbatim>\<open>url\<close> it returns \<^verbatim>\<open>http\<close>.
\<close>

theorem valFromTags_never_colon:
  "CHR '':'' \<notin> set (valFromTags tags key) \<and>
   ((\<forall>u\<in>set pre. \<not> HasPrefix u (key @ '':'')) \<and> HasPrefix t (key @ '':'') \<longrightarrow>
      valFromTags (pre @ t # post) key =
        takeWhile (\<lambda>c. c \<noteq> CHR '':'') (tl (dropWhile (\<lambda>c. c \<noteq> CHR '':'') t)))"
  using valFromTags_colon_free valFromTags_first by blast

text \<open>Claim C10 at the tags \<^verbatim>\<open>env:prod\<close>, \<^verbatim>\<open>url:http://x\<close>, \<^verbatim>\<open>url:other\<close>.\<close>

theorem valFromTags_never_colon_witness:
  "HasPrefix ''url:http://x'' (''url'' @ '':'') \<and>
   valFromTags ([''env:prod''] @ ''url:http://x'' # [''url:other'']) ''url'' = ''http'' \<and>
   CHR '':'' \<notin> set (valFromTags [''env:prod'', ''url:http://x'', ''url:other''] ''url'')"
  using valFromTags_never_colon
      [where tags = "[''env:prod'', ''url:http://x'', ''url:other'']" and key = "''url''"
         and pre = "[''env:prod'']" and t = "''url:http://x''" and post = "[''url:other'']"]
  by (simp add: HasPrefix_def)

text \<open>
  Claim C8, as stated, fails: with the one tag \<^verbatim>\<open>url:http://x\<close> of prefix \<^verbatim>\<open>url:\<close>,
  the extractor does not return the text that follows the key and the colon.
\<close>

theorem valFromTags_value_with_colon_counterexample:
  "filter (\<lambda>t. HasPrefix t (''url'' @ '':'')) [''env:prod'', ''url:http://x''] = [''url'' @ '':'' @ ''http://x''] \<and>
   valFromTags [''env:prod'', ''url:http://x''] ''url'' \<noteq> ''http://x''"
  by (simp add: HasPrefix_def valFromTags_def)

text \<open>
  Claim C8, amended. If no tag has the prefix \<^verbatim>\<open>key:\<close>, \<^verbatim>\<open>valFromTags\<close> returns the
  empty string. If exactly one tag has the prefix \<^verbatim>\<open>key:\<close> and the key holds no
  colon, it returns the text that follows the key and the colon up to the next colon
  (all of it when it holds no colon). Tags with no colon are ignored: removing them
  does not change the result. The function is total, so no input makes it fail.
\<close>

theorem valFromTags_absent_or_single:
  "((\<forall>t\<in>set tags. \<not> HasPrefix t (key @ '':'')) \<longrightarrow> valFromTags tags key = []) \<and>
   (filter (\<lambda>t. HasPrefix t (key @ '':'')) tags = [key @ '':'' @ rest] \<and> CHR '':'' \<notin> set key \<longrightarrow>
      valFromTags tags key = takeWhile (\<lambda>c. c \<noteq> CHR '':'') rest) \<and>
   valFromTags (filter (\<lambda>t. CHR '':'' \<in> set t) tags) key = valFromTags tags key"
proof (intro conjI impI)
  assume "\<forall>t\<in>set tags. \<not> HasPrefix t (key @ '':'')"
  then show "valFromTags tags key = []"
    by (simp add: valFromTags_def valFromTags_v_none)
next
  assume a: "filter (\<lambda>t. HasPrefix t (key @ '':'')) tags = [key @ '':'' @ rest] \<and> CHR '':'' \<notin> set key"
  then obtain pre post where tags: "tags = pre @ (key @ '':'' @ rest) # post"
    and pre: "\<forall>u\<in>set pre. \<not> HasPrefix u (key @ '':'')"
    and t: "HasPrefix (key @ '':'' @ rest) (key @ '':'')"
    using filter_singleton_split [of "\<lambda>t. HasPrefix t (key @ '':'')" tags "key @ '':'' @ rest"]
    by blast
  have "dropWhile (\<lambda>c. c \<noteq> CHR '':'') (key @ '':'' @ rest) = '':'' @ rest"
    using a by (subst dropWhile_append2) auto
  then show "valFromTags tags key = takeWhile (\<lambda>c. c \<noteq> CHR '':'') rest"
    unfolding tags using valFromTags_first [OF pre t, of post] by simp
next
  show "valFromTags (filter (\<lambda>t. CHR '':'' \<in> set t) tags) key = valFromTags tags key"
    by (simp add: valFromTags_def valFromTags_v_drop_colonless)
qed

text \<open>Claim C8, amended, at tag lists without and with one \<^verbatim>\<open>broker_id\<close> tag.\<close>

theorem valFromTags_absent_or_single_witness:
  "valFromTags [''env:prod'', ''idle''] ''broker_id'' = [] \<and>
   valFromTags [''env:prod'', ''idle'', ''broker_id:3:x''] ''broker_id'' = ''3'' \<and>
   valFromTags [''env:prod'', ''broker_id:3:x''] ''broker_id'' =
     valFromTags [''env:prod'', ''idle'', ''broker_id:3:x''] ''broker_id''"
  using valFromTags_absent_or_single
      [where tags = "[''env:prod'', ''idle'']" and key = "''broker_id''"]
    valFromTags_absent_or_single
      [where tags = "[''env:prod'', ''idle'', ''broker_id:3:x'']" and key = "''broker_id''"
         and rest = "''3:x''"]
  by (simp add: HasPrefix_def)

subsection \<open>Evaluation of the package on concrete inputs\<close>

lemmas populate_eval =
  populateFromTagMap_def populateStep_def identityStep_def instanceTypeStep_def
  valFromTags_def HasPrefix_def Atoi_def ParseInt_def ParseUint_def isDigit_def digitVal_def
  maxUint64_def exampleHeap_def Let_def

subsection \<open>Decimal numerals\<close>

lemma digit_char: "d < 10 \<Longrightarrow> digitVal (char_of (48 + d)) = d \<and> isDigit (char_of (48 + d))"
  by (simp add: digitVal_def isDigit_def)

lemma decimalNat_snoc: "decimalNat (s @ [c]) = decimalNat s * 10 + digitVal c"
  by (simp add: decimalNat_def)

lemma decimalNat_formatNat: "decimalNat (formatNat n) = n"
proof (induction n rule: formatNat.induct)
  case (1 n)
  show ?case
  proof (cases "n < 10")
    case True
    then show ?thesis
      by (subst formatNat.simps) (simp add: decimalNat_def digit_char)
  next
    case False
    then have "decimalNat (formatNat (n div 10)) = n div 10"
      using "1" by simp
    moreover have "digitVal (char_of (48 + n mod 10)) = n mod 10"
      by (simp add: digit_char)
    ultimately show ?thesis
      using False by (subst formatNat.simps) (simp add: decimalNat_snoc)
  qed
qed

lemma formatNat_digits: "c \<in> set (formatNat n) \<Longrightarrow> isDigit c"
proof (induction n rule: formatNat.induct)
  case (1 n)
  show ?case
  proof (cases "n < 10")
    case True
    then show ?thesis
      using "1.prems" by (subst (asm) formatNat.simps) (simp add: digit_char)
  next
    case False
    have "isDigit (char_of (48 + n mod 10))"
      by (simp add: digit_char)
    then show ?thesis
      using False "1" by (subst (asm) (2) formatNat.simps) auto
  qed
qed

lemma formatNat_not_Nil: "formatNat n \<noteq> []"
  by (subst formatNat.simps) simp

lemma decimalInt_formatInt: "decimalInt (formatInt w) = w"
proof (cases "w < 0")
  case True
  then show ?thesis
    by (simp add: decimalInt_def formatInt_def decimalNat_formatNat)
next
  case False
  obtain c ds where f: "formatNat (nat w) = c # ds"
    using formatNat_not_Nil by (cases "formatNat (nat w)") auto
  have "isDigit c"
    using formatNat_digits [of c "nat w"] f by simp
  then have "c \<noteq> CHR ''-''"
    by (auto simp: isDigit_def)
  then show ?thesis
    using False f decimalNat_formatNat [of "nat w"]
    by (simp add: decimalInt_def formatInt_def)
qed

lemma formatNat_all_digits: "list_all isDigit (formatNat n)"
  using formatNat_digits by (auto simp: list_all_iff)

lemma formatNat_leading: "n = 0 \<or> hd (formatNat n) \<noteq> CHR ''0''"
proof (induction n rule: formatNat.induct)
  case (1 n)
  show ?case
  proof (cases "n < 10")
    case True
    have "n \<noteq> 0 \<Longrightarrow> char_of (48 + n) \<noteq> CHR ''0''"
    proof
      assume "n \<noteq> 0" and "char_of (48 + n) = CHR ''0''"
      then have "digitVal (char_of (48 + n)) = digitVal CHR ''0''"
        by simp
      then show False
        using True \<open>n \<noteq> 0\<close> by (simp add: digit_char) (simp add: digitVal_def)
    qed
    then show ?thesis
      using True by (subst formatNat.simps) auto
  next
    case False
    then have "n div 10 \<noteq> 0"
      by simp
    then have "hd (formatNat (n div 10)) \<noteq> CHR ''0''"
      using "1" False by simp
    then show ?thesis
      using False formatNat_not_Nil [of "n div 10"] by (subst formatNat.simps) simp
  qed
qed

text \<open>A digit string in canonical form is what \<^verbatim>\<open>%d\<close> prints for its value, so the
  decimal numeral of an integer is the text printed for it and no other.\<close>

lemma char_of_48: "char_of (48::nat) = CHR ''0''"
proof -
  have "(of_char CHR ''0'' :: nat) = 48"
    by simp
  then have "char_of (48::nat) = char_of (of_char CHR ''0'' :: nat)"
    by simp
  then show ?thesis
    by (simp only: char_of_char)
qed

lemma isDigit_char: "isDigit c \<Longrightarrow> char_of (48 + digitVal c) = c \<and> digitVal c < 10"
  by (auto simp: isDigit_def digitVal_def)

lemma digitVal_zero: "isDigit c \<Longrightarrow> digitVal c = 0 \<Longrightarrow> c = CHR ''0''"
proof -
  assume "isDigit c" and "digitVal c = 0"
  then have "char_of (48 + (0::nat)) = c"
    using isDigit_char [of c] by simp
  then show ?thesis by (simp add: char_of_48)
qed

lemma decimalNat_positive:
  "ds \<noteq> [] \<Longrightarrow> list_all isDigit ds \<Longrightarrow> hd ds \<noteq> CHR ''0'' \<Longrightarrow> 0 < decimalNat ds"
proof (induction ds rule: rev_induct)
  case Nil
  then show ?case by simp
next
  case (snoc c ds)
  show ?case
  proof (cases "ds = []")
    case True
    then have "digitVal c \<noteq> 0"
      using snoc.prems digitVal_zero [of c] by auto
    then show ?thesis
      using True by (simp add: decimalNat_def)
  next
    case False
    then have "0 < decimalNat ds"
      using snoc by simp
    then show ?thesis
      by (simp add: decimalNat_snoc)
  qed
qed

lemma formatNat_decimalNat:
  "ds \<noteq> [] \<Longrightarrow> list_all isDigit ds \<Longrightarrow> length ds = 1 \<or> hd ds \<noteq> CHR ''0'' \<Longrightarrow>
     formatNat (decimalNat ds) = ds"
proof (induction ds rule: rev_induct)
  case Nil
  then show ?case by simp
next
  case (snoc c ds)
  have c: "isDigit c"
    using snoc.prems(2) by simp
  show ?case
  proof (cases "ds = []")
    case True
    then have "decimalNat (ds @ [c]) = digitVal c"
      by (simp add: decimalNat_def)
    then show ?thesis
      using True isDigit_char [OF c] by (subst formatNat.simps) simp
  next
    case False
    then have h: "hd ds \<noteq> CHR ''0''"
      using snoc.prems(3) by (cases ds) auto
    have d: "list_all isDigit ds"
      using snoc.prems(2) by simp
    have ih: "formatNat (decimalNat ds) = ds"
      using snoc.IH [OF False d] h by simp
    have "0 < decimalNat ds"
      using False d h by (rule decimalNat_positive)
    then have "\<not> decimalNat ds * 10 + digitVal c < 10"
      by simp
    moreover have "(decimalNat ds * 10 + digitVal c) div 10 = decimalNat ds"
      using isDigit_char [OF c] by simp
    moreover have "(decimalNat ds * 10 + digitVal c) mod 10 = digitVal c"
      using isDigit_char [OF c] by simp
    ultimately show ?thesis
      using ih isDigit_char [OF c]
      by (subst formatNat.simps) (simp add: decimalNat_snoc)
  qed
qed

lemma formatNat_zero: "formatNat 0 = ''0''"
  by (subst formatNat.simps) (simp add: char_of_48)

lemma formatNat_canonical: "length (formatNat n) = 1 \<or> hd (formatNat n) \<noteq> CHR ''0''"
  using formatNat_leading [of n] by (auto simp: formatNat_zero)

lemma decimalNumeral_iff: "decimalNumeral d w \<longleftrightarrow> d = formatInt w"
proof
  assume "decimalNumeral d w"
  then obtain ds where d: "d = (if w < 0 then ''-'' else []) @ ds" and n: "ds \<noteq> []"
    and a: "list_all isDigit ds" and l: "length ds = 1 \<or> hd ds \<noteq> CHR ''0''"
    and v: "decimalNat ds = nat \<bar>w\<bar>"
    by (auto simp: decimalNumeral_def Let_def)
  have "formatNat (nat \<bar>w\<bar>) = ds"
    using formatNat_decimalNat [OF n a l] v by simp
  then show "d = formatInt w"
    using d by (auto simp: formatInt_def)
next
  assume d: "d = formatInt w"
  let ?ds = "formatNat (nat \<bar>w\<bar>)"
  have e: "d = (if w < 0 then ''-'' else []) @ ?ds"
    using d by (simp add: formatInt_def)
  then have "(if w < 0 then drop 1 d else d) = ?ds"
    by simp
  moreover have "?ds \<noteq> []"
    by (rule formatNat_not_Nil)
  moreover have "list_all isDigit ?ds"
    by (rule formatNat_all_digits)
  moreover have "length ?ds = 1 \<or> hd ?ds \<noteq> CHR ''0''"
    by (rule formatNat_canonical)
  moreover have "decimalNat ?ds = nat \<bar>w\<bar>"
    by (rule decimalNat_formatNat)
  ultimately show "decimalNumeral d w"
    using e by (simp only: decimalNumeral_def Let_def simp_thms)
qed

subsection \<open>Claim about the query string\<close>

text \<open>
  Claim C7. For every base query string and every window \<open>w\<close>, the query built by
  \<^verbatim>\<open>createNetTXQuery\<close> is the base query followed by \<^verbatim>\<open>.rollup(avg, \<close>, the text
  printed for the window and \<^verbatim>\<open>)\<close>, and nothing else. The text printed is the decimal
  numeral of \<open>w\<close>, and the query is the base query followed by
  \<^verbatim>\<open>.rollup(avg, d)\<close> for a string \<open>d\<close> exactly when \<open>d\<close> is the decimal numeral of
  \<open>w\<close>: for the window 0 it is \<^verbatim>\<open>.rollup(avg, 0)\<close>.
\<close>

theorem createNetTXQuery_rollup_suffix:
  "createNetTXQuery
     \<lparr>APIKey = apiKey, AppKey = appKey, NetworkTXQuery = q, BrokerIDTag = btag,
      MetricsWindow = w\<rparr> =
     q @ ''.rollup(avg, '' @ formatInt w @ '')'' \<and>
   decimalNumeral (formatInt w) w \<and>
   (createNetTXQuery
      \<lparr>APIKey = apiKey, AppKey = appKey, NetworkTXQuery = q, BrokerIDTag = btag,
       MetricsWindow = w\<rparr> =
      q @ ''.rollup(avg, '' @ d @ '')'') = decimalNumeral d w"
proof -
  have a: "createNetTXQuery
     \<lparr>APIKey = apiKey, AppKey = appKey, NetworkTXQuery = q, BrokerIDTag = btag,
      MetricsWindow = w\<rparr> =
     q @ ''.rollup(avg, '' @ formatInt w @ '')''"
    by (simp add: createNetTXQuery_def)
  have b: "decimalNumeral (formatInt w) w"
    by (simp add: decimalNumeral_iff)
  have "(q @ ''.rollup(avg, '' @ formatInt w @ '')'' = q @ ''.rollup(avg, '' @ d @ '')'') =
      (d = formatInt w)"
    by auto
  then have c: "(createNetTXQuery
      \<lparr>APIKey = apiKey, AppKey = appKey, NetworkTXQuery = q, BrokerIDTag = btag,
       MetricsWindow = w\<rparr> =
      q @ ''.rollup(avg, '' @ d @ '')'') = decimalNumeral d w"
    by (simp only: a decimalNumeral_iff)
  show ?thesis
    using a b c by (intro conjI)
qed

text \<open>The query of the specification's scenario: window 60.\<close>

lemma createNetTXQuery_example:
  "createNetTXQuery
     \<lparr>APIKey = [], AppKey = [], NetworkTXQuery = ''avg:net.bytes_sent{service:kafka}'',
      BrokerIDTag = ''broker_id'', MetricsWindow = 60\<rparr> =
     ''avg:net.bytes_sent{service:kafka}.rollup(avg, 60)''"
  by code_simp

text \<open>The windows 0 and -300.\<close>

lemma createNetTXQuery_example_zero:
  "createNetTXQuery
     \<lparr>APIKey = [], AppKey = [], NetworkTXQuery = ''avg:net.bytes_sent{service:kafka}'',
      BrokerIDTag = ''broker_id'', MetricsWindow = 0\<rparr> =
     ''avg:net.bytes_sent{service:kafka}.rollup(avg, 0)'' \<and>
   createNetTXQuery
     \<lparr>APIKey = [], AppKey = [], NetworkTXQuery = ''avg:net.bytes_sent{service:kafka}'',
      BrokerIDTag = ''broker_id'', MetricsWindow = - 300\<rparr> =
     ''avg:net.bytes_sent{service:kafka}.rollup(avg, -300)''"
  by code_simp

subsection \<open>One turn of the loop of populateFromTagMap\<close>

lemma identityStep_metrics:
  "metrics (identityStep btag st b ht) = insertIdentity btag (metrics st) (b, ht)"
  by (simp add: identityStep_def insertIdentity_def parsedID_def Let_def)

lemma identityStep_Host: "Host (heap (identityStep btag st b ht) a) = Host (heap st a)"
  by (simp add: identityStep_def Let_def)

lemma identityStep_missingTags:
  "missingTags (identityStep btag st b ht) =
     missingTags st @
       (if valFromTags ht btag \<noteq> [] then [] else '' '' @ btag @ '':'' @ Host (heap st b))"
  by (simp add: identityStep_def Let_def)

lemma identityStep_ID:
  "ID (heap (identityStep btag st b ht) a) =
     (if a = b \<and> valFromTags ht btag \<noteq> [] then parsedID btag ht else ID (heap st a))"
  by (simp add: identityStep_def parsedID_def Let_def)

lemma instanceTypeStep_Returned:
  assumes "instanceTypeStep st b ht = Returned st'"
  shows "metrics st' = metrics st"
    and "Host (heap st' a) = Host (heap st a)"
    and "ID (heap st' a) = ID (heap st a)"
    and "missingTags st' =
           missingTags st @
             (if valFromTags ht ''instance-type'' \<noteq> [] then []
              else '' instance_type:'' @ Host (heap st b))"
  using assms
  by (auto simp: instanceTypeStep_def Let_def split: if_splits option.splits)

lemma populateStep_Panic_iff:
  "populateStep btag st e = Panic \<longleftrightarrow>
     valFromTags (snd e) ''instance-type'' \<noteq> [] \<and> valFromTags (snd e) btag = [] \<and>
     metrics st (ID (heap st (fst e))) = None"
  by (auto simp: populateStep_def instanceTypeStep_def identityStep_def Let_def
      split: option.splits)

lemma populateStep_total:
  assumes "valFromTags (snd e) btag \<noteq> [] \<or> valFromTags (snd e) ''instance-type'' = []"
  shows "\<exists>st'. populateStep btag st e = Returned st'"
  using assms populateStep_Panic_iff [of btag st e]
  by (cases "populateStep btag st e") auto

lemma populateStep_Returned:
  assumes "populateStep btag st e = Returned st'"
  shows "metrics st' = insertIdentity btag (metrics st) e"
    and "Host (heap st' a) = Host (heap st a)"
    and "missingTags st' = missingTags st @ report btag (Host (heap st (fst e))) (snd e)"
    and "ID (heap st' a) =
           (if a = fst e \<and> valFromTags (snd e) btag \<noteq> [] then parsedID btag (snd e)
            else ID (heap st a))"
proof -
  let ?st1 = "identityStep btag st (fst e) (snd e)"
  have r: "instanceTypeStep ?st1 (fst e) (snd e) = Returned st'"
    using assms by (simp add: populateStep_def)
  show "metrics st' = insertIdentity btag (metrics st) e"
    using instanceTypeStep_Returned(1) [OF r] by (simp add: identityStep_metrics)
  show "Host (heap st' a) = Host (heap st a)"
    using instanceTypeStep_Returned(2) [OF r] by (simp add: identityStep_Host)
  show "missingTags st' = missingTags st @ report btag (Host (heap st (fst e))) (snd e)"
    using instanceTypeStep_Returned(4) [OF r]
    by (simp add: identityStep_missingTags identityStep_Host report_def)
  show "ID (heap st' a) =
           (if a = fst e \<and> valFromTags (snd e) btag \<noteq> [] then parsedID btag (snd e)
            else ID (heap st a))"
    using instanceTypeStep_Returned(3) [OF r] by (simp add: identityStep_ID)
qed

subsection \<open>The whole loop\<close>

lemma populateLoop_metrics:
  "populateLoop btag st t = Returned st' \<Longrightarrow>
     metrics st' = foldl (insertIdentity btag) (metrics st) t"
proof (induction t arbitrary: st)
  case Nil
  then show ?case by simp
next
  case (Cons e t)
  then obtain st1 where s: "populateStep btag st e = Returned st1"
    and l: "populateLoop btag st1 t = Returned st'"
    by (auto split: result.splits)
  show ?case
    using Cons.IH [OF l] populateStep_Returned(1) [OF s] by simp
qed

lemma populateLoop_Host:
  "populateLoop btag st t = Returned st' \<Longrightarrow> Host (heap st' a) = Host (heap st a)"
proof (induction t arbitrary: st)
  case Nil
  then show ?case by simp
next
  case (Cons e t)
  then obtain st1 where s: "populateStep btag st e = Returned st1"
    and l: "populateLoop btag st1 t = Returned st'"
    by (auto split: result.splits)
  show ?case
    using Cons.IH [OF l] populateStep_Returned(2) [OF s] by simp
qed

lemma populateLoop_missingTags:
  "populateLoop btag st t = Returned st' \<Longrightarrow>
     missingTags st' =
       missingTags st @ concat (map (\<lambda>e. report btag (Host (heap st (fst e))) (snd e)) t)"
proof (induction t arbitrary: st)
  case Nil
  then show ?case by simp
next
  case (Cons e t)
  then obtain st1 where s: "populateStep btag st e = Returned st1"
    and l: "populateLoop btag st1 t = Returned st'"
    by (auto split: result.splits)
  have "\<And>a. Host (heap st1 a) = Host (heap st a)"
    using populateStep_Returned(2) [OF s] by simp
  then show ?case
    using Cons.IH [OF l] populateStep_Returned(3) [OF s] by simp
qed

lemma populateLoop_ID_other:
  "populateLoop btag st t = Returned st' \<Longrightarrow> a \<notin> fst ` set t \<Longrightarrow>
     ID (heap st' a) = ID (heap st a)"
proof (induction t arbitrary: st)
  case Nil
  then show ?case by simp
next
  case (Cons e t)
  then obtain st1 where s: "populateStep btag st e = Returned st1"
    and l: "populateLoop btag st1 t = Returned st'"
    by (auto split: result.splits)
  have "ID (heap st' a) = ID (heap st1 a)"
    using Cons.IH [OF l] Cons.prems(2) by simp
  then show ?case
    using populateStep_Returned(4) [OF s, of a] Cons.prems(2) by auto
qed

lemma populateLoop_ID:
  assumes "populateLoop btag st t = Returned st'" and "distinct (map fst t)"
    and "(b, ht) \<in> set t"
  shows "ID (heap st' b) =
           (if valFromTags ht btag \<noteq> [] then parsedID btag ht else ID (heap st b))"
  using assms
proof (induction t arbitrary: st)
  case Nil
  then show ?case by simp
next
  case (Cons e t)
  then obtain st1 where s: "populateStep btag st e = Returned st1"
    and l: "populateLoop btag st1 t = Returned st'"
    by (auto split: result.splits)
  show ?case
  proof (cases "e = (b, ht)")
    case True
    then have "b \<notin> fst ` set t"
      using Cons.prems(2) by auto
    then have "ID (heap st' b) = ID (heap st1 b)"
      using populateLoop_ID_other [OF l] by simp
    then show ?thesis
      using populateStep_Returned(4) [OF s, of b] True by simp
  next
    case False
    then have m: "(b, ht) \<in> set t"
      using Cons.prems(3) by auto
    then have "b \<in> fst ` set t"
      by force
    then have "fst e \<noteq> b"
      using Cons.prems(2) by auto
    then have "ID (heap st1 b) = ID (heap st b)"
      using populateStep_Returned(4) [OF s, of b] by simp
    then show ?thesis
      using Cons.IH [OF l _ m] Cons.prems(2) by simp
  qed
qed

lemma populateLoop_total:
  "\<forall>e\<in>set t. valFromTags (snd e) btag \<noteq> [] \<or> valFromTags (snd e) ''instance-type'' = [] \<Longrightarrow>
     \<exists>st'. populateLoop btag st t = Returned st'"
proof (induction t arbitrary: st)
  case Nil
  then show ?case by simp
next
  case (Cons e t)
  then obtain st1 where "populateStep btag st e = Returned st1"
    using populateStep_total [of e btag st] by auto
  then show ?case
    using Cons by simp
qed

text \<open>A pass in which every broker without an identity value has no instance-type value
  either does not panic.\<close>

lemma populateFromTagMap_completes:
  assumes "\<forall>e\<in>set t. valFromTags (snd e) btag \<noteq> [] \<or> valFromTags (snd e) ''instance-type'' = []"
  shows "\<exists>r. populateFromTagMap h bm t btag = Returned r"
proof -
  obtain st' where "populateLoop btag \<lparr>heap = h, metrics = bm, missingTags = []\<rparr> t = Returned st'"
    using populateLoop_total [OF assms] by blast
  then show ?thesis
    by (simp add: populateFromTagMap_def)
qed

subsection \<open>The map built by the insertions\<close>

lemma insertIdentity_Some:
  "insertIdentity btag m e k = Some a \<Longrightarrow>
     m k = Some a \<or> (fst e = a \<and> valFromTags (snd e) btag \<noteq> [] \<and> parsedID btag (snd e) = k)"
  by (auto simp: insertIdentity_def split: if_splits)

lemma foldl_insertIdentity_Some:
  "foldl (insertIdentity btag) m t k = Some a \<Longrightarrow>
     m k = Some a \<or>
     (\<exists>ht. (a, ht) \<in> set t \<and> valFromTags ht btag \<noteq> [] \<and> parsedID btag ht = k)"
proof (induction t arbitrary: m)
  case Nil
  then show ?case by simp
next
  case (Cons e t)
  then have "insertIdentity btag m e k = Some a \<or>
     (\<exists>ht. (a, ht) \<in> set t \<and> valFromTags ht btag \<noteq> [] \<and> parsedID btag ht = k)"
    by simp
  then show ?case
    using insertIdentity_Some [of btag m e k a] by (cases e) auto
qed

lemma foldl_insertIdentity_dom:
  "dom (foldl (insertIdentity btag) m t) =
     dom m \<union> (\<lambda>e. parsedID btag (snd e)) ` {e \<in> set t. valFromTags (snd e) btag \<noteq> []}"
proof (induction t arbitrary: m)
  case Nil
  then show ?case by simp
next
  case (Cons e t)
  have "dom (insertIdentity btag m e) =
      dom m \<union> (if valFromTags (snd e) btag \<noteq> [] then {parsedID btag (snd e)} else {})"
    by (auto simp: insertIdentity_def)
  then show ?case
    using Cons.IH [of "insertIdentity btag m e"] by auto
qed

lemma foldl_insertIdentity_unique:
  assumes "(b, ht) \<in> set t" and "valFromTags ht btag \<noteq> []"
    and "\<forall>e\<in>set t. valFromTags (snd e) btag \<noteq> [] \<and> parsedID btag (snd e) = parsedID btag ht
           \<longrightarrow> fst e = b"
  shows "foldl (insertIdentity btag) Map.empty t (parsedID btag ht) = Some b"
proof -
  have "parsedID btag ht \<in> dom (foldl (insertIdentity btag) Map.empty t)"
    using assms(1,2)
    by (auto simp: foldl_insertIdentity_dom intro!: image_eqI [where x = "(b, ht)"])
  then obtain a where a: "foldl (insertIdentity btag) Map.empty t (parsedID btag ht) = Some a"
    by auto
  then obtain ht' where "(a, ht') \<in> set t" "valFromTags ht' btag \<noteq> []"
    "parsedID btag ht' = parsedID btag ht"
    using foldl_insertIdentity_Some [OF a] by auto
  then have "a = b"
    using assms(3) by force
  then show ?thesis
    using a by simp
qed

subsection \<open>The invariant\<close>

lemma identityStep_ran:
  "ran (metrics (identityStep btag st b ht)) \<subseteq> insert b (ran (metrics st))"
  by (auto simp: identityStep_def Let_def ran_def split: if_splits)

lemma identityStep_keyIsID:
  "keyIsID st \<Longrightarrow> b \<notin> ran (metrics st) \<Longrightarrow> keyIsID (identityStep btag st b ht)"
  by (auto simp: keyIsID_def identityStep_def Let_def ran_def split: if_splits)

lemma instanceTypeStep_keyIsID:
  "keyIsID st \<Longrightarrow> instanceTypeStep st b ht = Returned st' \<Longrightarrow> keyIsID st'"
  unfolding keyIsID_def
  using instanceTypeStep_Returned(1,3) by metis

lemma populateStep_keyIsID:
  assumes "keyIsID st" and "fst e \<notin> ran (metrics st)" and "populateStep btag st e = Returned st'"
  shows "keyIsID st' \<and> ran (metrics st') \<subseteq> insert (fst e) (ran (metrics st))"
proof -
  let ?st1 = "identityStep btag st (fst e) (snd e)"
  have r: "instanceTypeStep ?st1 (fst e) (snd e) = Returned st'"
    using assms(3) by (simp add: populateStep_def)
  have "keyIsID ?st1"
    using assms(1,2) by (rule identityStep_keyIsID)
  then have "keyIsID st'"
    using r by (rule instanceTypeStep_keyIsID)
  moreover have "metrics st' = metrics ?st1"
    using instanceTypeStep_Returned(1) [OF r] .
  ultimately show ?thesis
    using identityStep_ran [of btag st "fst e" "snd e"] by simp
qed

lemma populateLoop_keyIsID:
  assumes "keyIsID st" and "distinct (map fst t)" and "fst ` set t \<inter> ran (metrics st) = {}"
    and "populateLoop btag st t = Returned st'"
  shows "keyIsID st'"
  using assms
proof (induction t arbitrary: st)
  case Nil
  then show ?case by simp
next
  case (Cons e t)
  then obtain st1 where s: "populateStep btag st e = Returned st1"
    and l: "populateLoop btag st1 t = Returned st'"
    by (auto split: result.splits)
  have fresh: "fst e \<notin> ran (metrics st)"
    using Cons.prems(3) by auto
  have k1: "keyIsID st1" and r1: "ran (metrics st1) \<subseteq> insert (fst e) (ran (metrics st))"
    using populateStep_keyIsID [OF Cons.prems(1) fresh s] by auto
  have "fst ` set t \<inter> insert (fst e) (ran (metrics st)) = {}"
    using Cons.prems(2,3) by auto
  then have "fst ` set t \<inter> ran (metrics st1) = {}"
    using r1 by blast
  then show ?case
    using Cons.IH [OF k1 _ _ l] Cons.prems(2) by simp
qed

lemma populateLoop_ran:
  "populateLoop btag st t = Returned st' \<Longrightarrow>
     ran (metrics st') \<subseteq> ran (metrics st) \<union> fst ` set t"
proof -
  assume "populateLoop btag st t = Returned st'"
  then have m: "metrics st' = foldl (insertIdentity btag) (metrics st) t"
    by (rule populateLoop_metrics)
  show ?thesis
  proof
    fix a
    assume "a \<in> ran (metrics st')"
    then obtain k where "foldl (insertIdentity btag) (metrics st) t k = Some a"
      using m by (auto simp: ran_def)
    then have "metrics st k = Some a \<or> (\<exists>ht. (a, ht) \<in> set t)"
      using foldl_insertIdentity_Some by blast
    then show "a \<in> ran (metrics st) \<union> fst ` set t"
      by (force simp: ran_def)
  qed
qed

lemma keyIsID_initial: "keyIsID \<lparr>heap = h, metrics = Map.empty, missingTags = []\<rparr>"
  by (simp add: keyIsID_def)

lemma sublist_concat_member: "x \<in> set xs \<Longrightarrow> sublist (f x) (concat (map f xs))"
proof -
  assume "x \<in> set xs"
  then obtain ys zs where "xs = ys @ x # zs"
    by (meson split_list)
  then show ?thesis
    by (simp add: sublist_def) blast
qed

lemma sublist_trans3: "sublist a b \<Longrightarrow> sublist b c \<Longrightarrow> sublist a c"
  using sublist_order.order_trans by blast

subsection \<open>Claims about the reconciliation pass\<close>

text \<open>
  Claim C9. In the \<^verbatim>\<open>BrokerMetrics\<close> of a reconciliation pass (the map starts empty,
  as in \<^verbatim>\<open>brokerMetricsFromList\<close>, and the keys of the tag map are distinct pointers),
  every key is the \<^verbatim>\<open>ID\<close> of the broker stored under it: in the map the pass
  returns, and during the pass before each turn of the loop, after the insertion of
  the turn and after its instance-type update.
\<close>

theorem populateFromTagMap_key_is_ID:
  assumes "distinct (map fst t)"
  shows "(populateFromTagMap h Map.empty t btag = Returned (h', bm', err) \<longrightarrow>
           (\<forall>k a. bm' k = Some a \<longrightarrow> ID (h' a) = k)) \<and>
         (t = pre @ (b, ht) # post \<and>
          populateLoop btag \<lparr>heap = h, metrics = Map.empty, missingTags = []\<rparr> pre = Returned st \<longrightarrow>
            keyIsID st \<and> keyIsID (identityStep btag st b ht) \<and>
            (\<forall>st2. instanceTypeStep (identityStep btag st b ht) b ht = Returned st2 \<longrightarrow>
               keyIsID st2))"
proof (rule conjI)
  let ?st0 = "\<lparr>heap = h, metrics = Map.empty, missingTags = []\<rparr>"
  show "populateFromTagMap h Map.empty t btag = Returned (h', bm', err) \<longrightarrow>
           (\<forall>k a. bm' k = Some a \<longrightarrow> ID (h' a) = k)"
  proof
    assume "populateFromTagMap h Map.empty t btag = Returned (h', bm', err)"
    then obtain st' where l: "populateLoop btag ?st0 t = Returned st'"
      and r: "h' = heap st'" "bm' = metrics st'"
      by (auto simp: populateFromTagMap_def split: result.splits)
    have "keyIsID st'"
      using keyIsID_initial assms _ l by (rule populateLoop_keyIsID) simp
    then show "\<forall>k a. bm' k = Some a \<longrightarrow> ID (h' a) = k"
      by (simp add: keyIsID_def r)
  qed
  show "t = pre @ (b, ht) # post \<and> populateLoop btag ?st0 pre = Returned st \<longrightarrow>
            keyIsID st \<and> keyIsID (identityStep btag st b ht) \<and>
            (\<forall>st2. instanceTypeStep (identityStep btag st b ht) b ht = Returned st2 \<longrightarrow>
               keyIsID st2)"
  proof
    assume a: "t = pre @ (b, ht) # post \<and> populateLoop btag ?st0 pre = Returned st"
    then have l: "populateLoop btag ?st0 pre = Returned st" and d: "distinct (map fst pre)"
      and f: "b \<notin> fst ` set pre"
      using assms by auto
    have k: "keyIsID st"
      using keyIsID_initial d _ l by (rule populateLoop_keyIsID) simp
    have "ran (metrics st) \<subseteq> fst ` set pre"
      using populateLoop_ran [OF l] by simp
    then have "b \<notin> ran (metrics st)"
      using f by auto
    then have k1: "keyIsID (identityStep btag st b ht)"
      using k by (simp add: identityStep_keyIsID)
    then show "keyIsID st \<and> keyIsID (identityStep btag st b ht) \<and>
            (\<forall>st2. instanceTypeStep (identityStep btag st b ht) b ht = Returned st2 \<longrightarrow>
               keyIsID st2)"
      using k instanceTypeStep_keyIsID by blast
  qed
qed

text \<open>
  Claim C2, amended. In a pass that completes, over distinct brokers and from the empty
  map: a broker whose identity value is empty or absent is not in the resulting
  \<^verbatim>\<open>BrokerMetrics\<close>, and the error returned is a partial-results error whose text
  holds the identity tag name and the host of that broker; a broker whose identity
  value is not empty, and whose parsed ID no other broker of the pass shares, is in the
  map under its parsed ID, which is also its \<^verbatim>\<open>ID\<close> field.
\<close>

theorem populateFromTagMap_missing_identity:
  assumes "distinct (map fst t)"
    and "populateFromTagMap h Map.empty t btag = Returned (h', bm', err)"
  shows "(\<forall>e\<in>set t. valFromTags (snd e) btag = [] \<longrightarrow>
            fst e \<notin> ran bm' \<and>
            (\<exists>m. err = Some (PartialResults m) \<and>
               sublist ('' '' @ btag @ '':'' @ Host (h (fst e))) m \<and>
               sublist (Host (h (fst e))) m)) \<and>
         (\<forall>e\<in>set t. valFromTags (snd e) btag \<noteq> [] \<and>
            (\<forall>e'\<in>set t. valFromTags (snd e') btag \<noteq> [] \<and>
               parsedID btag (snd e') = parsedID btag (snd e) \<longrightarrow> fst e' = fst e) \<longrightarrow>
            bm' (parsedID btag (snd e)) = Some (fst e) \<and>
            ID (h' (fst e)) = parsedID btag (snd e))"
proof -
  let ?st0 = "\<lparr>heap = h, metrics = Map.empty, missingTags = []\<rparr>"
  let ?rep = "\<lambda>e. report btag (Host (h (fst e))) (snd e)"
  let ?pre = "''Host tags missing for: ''"
  obtain st' where l: "populateLoop btag ?st0 t = Returned st'"
    and r: "h' = heap st'" "bm' = metrics st'"
    and e: "err = (if missingTags st' \<noteq> [] then
                Some (PartialResults (?pre @ missingTags st')) else None)"
    using assms(2) by (auto simp: populateFromTagMap_def split: result.splits)
  have bm: "bm' = foldl (insertIdentity btag) Map.empty t"
    using populateLoop_metrics [OF l] r by simp
  have mt: "missingTags st' = concat (map ?rep t)"
    using populateLoop_missingTags [OF l] by simp
  have absent: "fst e \<notin> ran bm'" if m: "e \<in> set t" and v: "valFromTags (snd e) btag = []" for e
  proof
    assume "fst e \<in> ran bm'"
    then obtain k where "foldl (insertIdentity btag) Map.empty t k = Some (fst e)"
      using bm by (auto simp: ran_def)
    then have "Map.empty k = Some (fst e) \<or>
        (\<exists>ht. (fst e, ht) \<in> set t \<and> valFromTags ht btag \<noteq> [] \<and> parsedID btag ht = k)"
      by (rule foldl_insertIdentity_Some)
    then obtain ht' where h': "(fst e, ht') \<in> set t" "valFromTags ht' btag \<noteq> []"
      by auto
    have "(fst e, snd e) \<in> set t"
      using m by simp
    then have "ht' = snd e"
      using eq_key_imp_eq_value [OF assms(1) h'(1)] by simp
    then show False
      using h'(2) v by simp
  qed
  have reported: "\<exists>m. err = Some (PartialResults m) \<and>
               sublist ('' '' @ btag @ '':'' @ Host (h (fst e))) m \<and>
               sublist (Host (h (fst e))) m"
    if m: "e \<in> set t" and v: "valFromTags (snd e) btag = []" for e
  proof -
    let ?line = "'' '' @ btag @ '':'' @ Host (h (fst e))"
    have s1: "sublist ?line (?rep e)"
      using v unfolding report_def by (simp del: append.simps append_assoc)
    have s2: "sublist (?rep e) (missingTags st')"
      unfolding mt using m by (rule sublist_concat_member)
    have "?rep e \<noteq> []"
      using v by (simp add: report_def)
    then have ne: "missingTags st' \<noteq> []"
      using s2 by auto
    have s3: "sublist (missingTags st') (?pre @ missingTags st')"
      by (rule sublist_append_leftI)
    have "?line = ('' '' @ btag @ '':'') @ Host (h (fst e))"
      by simp
    then have s4: "sublist (Host (h (fst e))) ?line"
      using sublist_append_leftI by metis
    have a1: "sublist ?line (?pre @ missingTags st')"
      using s1 s2 s3 sublist_trans3 by blast
    then have a2: "sublist (Host (h (fst e))) (?pre @ missingTags st')"
      using s4 sublist_trans3 by blast
    have "err = Some (PartialResults (?pre @ missingTags st'))"
      using ne by (simp add: e)
    then show ?thesis
      using a1 a2 by (intro exI [of _ "?pre @ missingTags st'"] conjI)
  qed
  have inserted: "bm' (parsedID btag (snd e)) = Some (fst e) \<and>
            ID (h' (fst e)) = parsedID btag (snd e)"
    if m: "e \<in> set t" and v: "valFromTags (snd e) btag \<noteq> []"
      and u: "\<forall>e'\<in>set t. valFromTags (snd e') btag \<noteq> [] \<and>
               parsedID btag (snd e') = parsedID btag (snd e) \<longrightarrow> fst e' = fst e" for e
  proof -
    have m': "(fst e, snd e) \<in> set t"
      using m by simp
    have "foldl (insertIdentity btag) Map.empty t (parsedID btag (snd e)) = Some (fst e)"
      using m' v u by (rule foldl_insertIdentity_unique)
    moreover have "ID (heap st' (fst e)) = parsedID btag (snd e)"
      using populateLoop_ID [OF l assms(1) m'] v by simp
    ultimately show ?thesis
      by (simp add: bm r(1))
  qed
  show ?thesis
  proof (rule conjI)
    show "\<forall>e\<in>set t. valFromTags (snd e) btag = [] \<longrightarrow>
            fst e \<notin> ran bm' \<and>
            (\<exists>m. err = Some (PartialResults m) \<and>
               sublist ('' '' @ btag @ '':'' @ Host (h (fst e))) m \<and>
               sublist (Host (h (fst e))) m)"
    proof (intro ballI impI)
      fix e
      assume "e \<in> set t" and "valFromTags (snd e) btag = []"
      then show "fst e \<notin> ran bm' \<and>
            (\<exists>m. err = Some (PartialResults m) \<and>
               sublist ('' '' @ btag @ '':'' @ Host (h (fst e))) m \<and>
               sublist (Host (h (fst e))) m)"
        using absent [of e] reported [of e] by (intro conjI)
    qed
    show "\<forall>e\<in>set t. valFromTags (snd e) btag \<noteq> [] \<and>
            (\<forall>e'\<in>set t. valFromTags (snd e') btag \<noteq> [] \<and>
               parsedID btag (snd e') = parsedID btag (snd e) \<longrightarrow> fst e' = fst e) \<longrightarrow>
            bm' (parsedID btag (snd e)) = Some (fst e) \<and>
            ID (h' (fst e)) = parsedID btag (snd e)"
    proof (intro ballI impI)
      fix e
      assume m: "e \<in> set t"
        and c: "valFromTags (snd e) btag \<noteq> [] \<and>
            (\<forall>e'\<in>set t. valFromTags (snd e') btag \<noteq> [] \<and>
               parsedID btag (snd e') = parsedID btag (snd e) \<longrightarrow> fst e' = fst e)"
      show "bm' (parsedID btag (snd e)) = Some (fst e) \<and>
            ID (h' (fst e)) = parsedID btag (snd e)"
        using m conjunct1 [OF c] conjunct2 [OF c] by (rule inserted)
    qed
  qed
qed

text \<open>Two brokers, the second without an instance-type tag: the pass and its first
  turn.\<close>

lemma populateFromTagMap_example_partial: "populateFromTagMap exampleHeap Map.empty
       [(0, [''broker_id:3'', ''instance-type:m5.xlarge'']), (1, [''broker_id:4''])] ''broker_id'' =
     Returned
       (exampleHeap(0 := exampleHeap 0\<lparr>ID := 3, InstanceType := ''m5.xlarge''\<rparr>,
                    1 := exampleHeap 1\<lparr>ID := 4\<rparr>),
        [3 \<mapsto> 0, 4 \<mapsto> 1],
        Some (PartialResults ''Host tags missing for:  instance_type:broker-2''))"
  by (simp add: populate_eval)

lemma populateLoop_example_prefix: "populateLoop ''broker_id'' \<lparr>heap = exampleHeap, metrics = Map.empty, missingTags = []\<rparr>
       [(0, [''broker_id:3'', ''instance-type:m5.xlarge''])] =
     Returned \<lparr>heap = exampleHeap(0 := exampleHeap 0\<lparr>ID := 3, InstanceType := ''m5.xlarge''\<rparr>),
        metrics = [3 \<mapsto> 0], missingTags = []\<rparr>"
  by (simp add: populate_eval)

text \<open>Claim C9 at that pass: the keys 3 and 4 are the IDs of the brokers stored.\<close>

theorem populateFromTagMap_key_is_ID_witness:
  "distinct (map fst [(0::addr, [''broker_id:3'', ''instance-type:m5.xlarge'']), (1, [''broker_id:4''])]) \<and>
   populateFromTagMap exampleHeap Map.empty
       [(0, [''broker_id:3'', ''instance-type:m5.xlarge'']), (1, [''broker_id:4''])] ''broker_id'' =
     Returned
       (exampleHeap(0 := exampleHeap 0\<lparr>ID := 3, InstanceType := ''m5.xlarge''\<rparr>,
                    1 := exampleHeap 1\<lparr>ID := 4\<rparr>),
        [3 \<mapsto> 0, 4 \<mapsto> 1],
        Some (PartialResults ''Host tags missing for:  instance_type:broker-2'')) \<and>
   ID ((exampleHeap(0 := exampleHeap 0\<lparr>ID := 3, InstanceType := ''m5.xlarge''\<rparr>,
                    1 := exampleHeap 1\<lparr>ID := 4\<rparr>)) 1) = 4 \<and>
   keyIsID (identityStep ''broker_id''
      \<lparr>heap = exampleHeap(0 := exampleHeap 0\<lparr>ID := 3, InstanceType := ''m5.xlarge''\<rparr>),
        metrics = [3 \<mapsto> 0], missingTags = []\<rparr> 1 [''broker_id:4''])"
  using populateFromTagMap_key_is_ID
    [where t = "[(0, [''broker_id:3'', ''instance-type:m5.xlarge'']), (1, [''broker_id:4''])]"
       and h = exampleHeap and btag = "''broker_id''"
       and h' = "exampleHeap(0 := exampleHeap 0\<lparr>ID := 3, InstanceType := ''m5.xlarge''\<rparr>,
                    1 := exampleHeap 1\<lparr>ID := 4\<rparr>)"
       and bm' = "[3 \<mapsto> 0, 4 \<mapsto> 1]"
       and err = "Some (PartialResults ''Host tags missing for:  instance_type:broker-2'')"
       and pre = "[(0, [''broker_id:3'', ''instance-type:m5.xlarge''])]"
       and b = 1 and ht = "[''broker_id:4'']" and post = "[]"
       and st = "\<lparr>heap = exampleHeap(0 := exampleHeap 0\<lparr>ID := 3, InstanceType := ''m5.xlarge''\<rparr>),
        metrics = [3 \<mapsto> 0], missingTags = []\<rparr>"]
    populateFromTagMap_example_partial populateLoop_example_prefix
  by simp

text \<open>A broker with no tag of interest after a broker with both.\<close>

lemma populateFromTagMap_example_missing: "populateFromTagMap exampleHeap Map.empty
       [(0, [''broker_id:3'', ''instance-type:m5.xlarge'']), (1, [''env:prod''])] ''broker_id'' =
     Returned
       (exampleHeap(0 := exampleHeap 0\<lparr>ID := 3, InstanceType := ''m5.xlarge''\<rparr>),
        [3 \<mapsto> 0],
        Some (PartialResults ''Host tags missing for:  broker_id:broker-2 instance_type:broker-2''))"
  by (simp add: populate_eval)

text \<open>Claim C2, amended, at that pass: the second broker is reported and not inserted,
  the first is inserted under 3.\<close>

theorem populateFromTagMap_missing_identity_witness:
  "distinct (map fst [(0::addr, [''broker_id:3'', ''instance-type:m5.xlarge'']), (1, [''env:prod''])]) \<and>
   populateFromTagMap exampleHeap Map.empty
       [(0, [''broker_id:3'', ''instance-type:m5.xlarge'']), (1, [''env:prod''])] ''broker_id'' =
     Returned
       (exampleHeap(0 := exampleHeap 0\<lparr>ID := 3, InstanceType := ''m5.xlarge''\<rparr>),
        [3 \<mapsto> 0],
        Some (PartialResults ''Host tags missing for:  broker_id:broker-2 instance_type:broker-2'')) \<and>
   valFromTags [''env:prod''] ''broker_id'' = [] \<and>
   (1::addr) \<notin> ran [(3::int) \<mapsto> (0::addr)] \<and>
   sublist ''broker-2'' ''Host tags missing for:  broker_id:broker-2 instance_type:broker-2'' \<and>
   valFromTags [''broker_id:3'', ''instance-type:m5.xlarge''] ''broker_id'' = ''3'' \<and>
   [(3::int) \<mapsto> (0::addr)] 3 = Some 0"
  using populateFromTagMap_missing_identity
    [where t = "[(0, [''broker_id:3'', ''instance-type:m5.xlarge'']), (1, [''env:prod''])]"
       and h = exampleHeap and btag = "''broker_id''"
       and h' = "exampleHeap(0 := exampleHeap 0\<lparr>ID := 3, InstanceType := ''m5.xlarge''\<rparr>)"
       and bm' = "[3 \<mapsto> 0]"
       and err = "Some (PartialResults ''Host tags missing for:  broker_id:broker-2 instance_type:broker-2'')"]
    populateFromTagMap_example_missing
  by (simp add: populate_eval parsedID_def)

text \<open>
  Claim C2, as stated, fails: the first two brokers have the identity tag with the same
  value and the third has none. The pass completes and reports the third, but the map
  holds only the broker visited last under the key 1; the first broker, whose tag set
  contains the identity tag, is not in it.
\<close>

theorem populateFromTagMap_shared_identity_counterexample:
  "valFromTags [''broker_id:1''] ''broker_id'' = ''1'' \<and>
   valFromTags [''env:prod''] ''broker_id'' = [] \<and>
   populateFromTagMap exampleHeap Map.empty
       [(0, [''broker_id:1'']), (1, [''broker_id:1'']), (2, [''env:prod''])] ''broker_id'' =
     Returned
       (exampleHeap(0 := exampleHeap 0\<lparr>ID := 1\<rparr>, 1 := exampleHeap 1\<lparr>ID := 1\<rparr>),
        [1 \<mapsto> 1],
        Some (PartialResults
          ''Host tags missing for:  instance_type:broker-1 instance_type:broker-2 broker_id:broker-3 instance_type:broker-3'')) \<and>
   [(1::int) \<mapsto> (1::addr)] 1 \<noteq> Some 0"
  by (simp add: populate_eval)

subsection \<open>Passes in which every broker has both tags\<close>

lemma populateStep_InstanceType:
  assumes "populateStep btag st e = Returned st'" and "valFromTags (snd e) btag \<noteq> []"
  shows "InstanceType (heap st' a) =
           (if a = fst e \<and> valFromTags (snd e) ''instance-type'' \<noteq> []
            then valFromTags (snd e) ''instance-type'' else InstanceType (heap st a))"
  using assms
  by (auto simp: populateStep_def instanceTypeStep_def identityStep_def Let_def
      split: if_splits option.splits)

lemma populateLoop_InstanceType_other:
  "populateLoop btag st t = Returned st' \<Longrightarrow> \<forall>e\<in>set t. valFromTags (snd e) btag \<noteq> [] \<Longrightarrow>
     a \<notin> fst ` set t \<Longrightarrow> InstanceType (heap st' a) = InstanceType (heap st a)"
proof (induction t arbitrary: st)
  case Nil
  then show ?case by simp
next
  case (Cons e t)
  then obtain st1 where s: "populateStep btag st e = Returned st1"
    and l: "populateLoop btag st1 t = Returned st'"
    by (auto split: result.splits)
  have "InstanceType (heap st' a) = InstanceType (heap st1 a)"
    using Cons.IH [OF l] Cons.prems(2,3) by simp
  moreover have "InstanceType (heap st1 a) = InstanceType (heap st a)"
    using populateStep_InstanceType [OF s, of a] Cons.prems(2,3) by auto
  ultimately show ?case by simp
qed

lemma populateLoop_InstanceType:
  assumes "populateLoop btag st t = Returned st'" and "distinct (map fst t)"
    and "\<forall>e\<in>set t. valFromTags (snd e) btag \<noteq> []"
    and "(b, ht) \<in> set t" and "valFromTags ht ''instance-type'' \<noteq> []"
  shows "InstanceType (heap st' b) = valFromTags ht ''instance-type''"
  using assms
proof (induction t arbitrary: st)
  case Nil
  then show ?case by simp
next
  case (Cons e t)
  then obtain st1 where s: "populateStep btag st e = Returned st1"
    and l: "populateLoop btag st1 t = Returned st'"
    by (auto split: result.splits)
  have all: "\<forall>e\<in>set t. valFromTags (snd e) btag \<noteq> []"
    using Cons.prems(3) by simp
  show ?case
  proof (cases "e = (b, ht)")
    case True
    then have "b \<notin> fst ` set t"
      using Cons.prems(2) by auto
    then have "InstanceType (heap st' b) = InstanceType (heap st1 b)"
      using populateLoop_InstanceType_other [OF l all] by simp
    moreover have "InstanceType (heap st1 b) = valFromTags ht ''instance-type''"
      using populateStep_InstanceType [OF s, of b] True Cons.prems(3,5) by simp
    ultimately show ?thesis by simp
  next
    case False
    then have m: "(b, ht) \<in> set t"
      using Cons.prems(4) by auto
    show ?thesis
      using Cons.IH [OF l _ all m Cons.prems(5)] Cons.prems(2) by simp
  qed
qed

lemma report_Nil:
  "valFromTags ht btag \<noteq> [] \<Longrightarrow> valFromTags ht ''instance-type'' \<noteq> [] \<Longrightarrow>
     report btag host ht = []"
  by (simp add: report_def)

text \<open>
  Claim C3, amended. When every broker of the pass has a non-empty identity value and a
  non-empty instance-type value, and the parsed identities are pairwise distinct, the
  pass (over distinct brokers, from the empty map) completes with no error; the map has
  exactly one entry per broker, keyed by the integer parsed from its identity value,
  and each broker has that integer as \<^verbatim>\<open>ID\<close> and its instance type set.
\<close>

theorem populateFromTagMap_all_tags_present:
  assumes "distinct (map fst t)"
    and "\<forall>e\<in>set t. valFromTags (snd e) btag \<noteq> [] \<and> valFromTags (snd e) ''instance-type'' \<noteq> []"
    and "distinct (map (\<lambda>e. parsedID btag (snd e)) t)"
  shows "\<exists>h' bm'. populateFromTagMap h Map.empty t btag = Returned (h', bm', None) \<and>
           dom bm' = (\<lambda>e. parsedID btag (snd e)) ` set t \<and>
           card (dom bm') = length t \<and>
           (\<forall>e\<in>set t. bm' (parsedID btag (snd e)) = Some (fst e) \<and>
              ID (h' (fst e)) = parsedID btag (snd e) \<and>
              InstanceType (h' (fst e)) = valFromTags (snd e) ''instance-type'')"
proof -
  let ?st0 = "\<lparr>heap = h, metrics = Map.empty, missingTags = []\<rparr>"
  let ?pid = "\<lambda>e. parsedID btag (snd e)"
  have ids: "\<forall>e\<in>set t. valFromTags (snd e) btag \<noteq> []"
    using assms(2) by simp
  then obtain st' where l: "populateLoop btag ?st0 t = Returned st'"
    using populateLoop_total [of t btag ?st0] by blast
  have "concat (map (\<lambda>e. report btag (Host (h (fst e))) (snd e)) t) = []"
    using assms(2) by (simp add: report_Nil)
  then have mt: "missingTags st' = []"
    using populateLoop_missingTags [OF l] by simp
  have bm: "metrics st' = foldl (insertIdentity btag) Map.empty t"
    using populateLoop_metrics [OF l] by simp
  have r: "populateFromTagMap h Map.empty t btag = Returned (heap st', metrics st', None)"
    by (simp add: populateFromTagMap_def l mt)
  have "{e \<in> set t. valFromTags (snd e) btag \<noteq> []} = set t"
    using ids by auto
  then have d: "dom (metrics st') = ?pid ` set t"
    by (simp add: bm foldl_insertIdentity_dom)
  have "card (?pid ` set t) = length t"
    using distinct_card [OF assms(3)] by simp
  then have c: "card (dom (metrics st')) = length t"
    using d by simp
  have each: "metrics st' (?pid e) = Some (fst e) \<and> ID (heap st' (fst e)) = ?pid e \<and>
      InstanceType (heap st' (fst e)) = valFromTags (snd e) ''instance-type''"
    if m: "e \<in> set t" for e
  proof -
    have m': "(fst e, snd e) \<in> set t"
      using m by simp
    have v: "valFromTags (snd e) btag \<noteq> []" and i: "valFromTags (snd e) ''instance-type'' \<noteq> []"
      using assms(2) m by auto
    have u: "\<forall>e'\<in>set t. valFromTags (snd e') btag \<noteq> [] \<and> ?pid e' = ?pid e \<longrightarrow> fst e' = fst e"
    proof (intro ballI impI)
      fix e'
      assume "e' \<in> set t" and "valFromTags (snd e') btag \<noteq> [] \<and> ?pid e' = ?pid e"
      then have "e' = e"
        using m assms(3) by (auto simp: distinct_map dest: inj_onD)
      then show "fst e' = fst e" by simp
    qed
    have "foldl (insertIdentity btag) Map.empty t (?pid e) = Some (fst e)"
      using m' v u by (rule foldl_insertIdentity_unique)
    moreover have "ID (heap st' (fst e)) = ?pid e"
      using populateLoop_ID [OF l assms(1) m'] v by simp
    moreover have "InstanceType (heap st' (fst e)) = valFromTags (snd e) ''instance-type''"
      using l assms(1) ids m' i by (rule populateLoop_InstanceType)
    ultimately show ?thesis
      by (simp add: bm)
  qed
  have all: "\<forall>e\<in>set t. metrics st' (?pid e) = Some (fst e) \<and> ID (heap st' (fst e)) = ?pid e \<and>
      InstanceType (heap st' (fst e)) = valFromTags (snd e) ''instance-type''"
    by (intro ballI) (rule each)
  from r d c all
  have "populateFromTagMap h Map.empty t btag = Returned (heap st', metrics st', None) \<and>
      dom (metrics st') = ?pid ` set t \<and> card (dom (metrics st')) = length t \<and>
      (\<forall>e\<in>set t. metrics st' (?pid e) = Some (fst e) \<and> ID (heap st' (fst e)) = ?pid e \<and>
         InstanceType (heap st' (fst e)) = valFromTags (snd e) ''instance-type'')"
    by (intro conjI)
  then show ?thesis
    by - (rule exI [of _ "heap st'"], rule exI [of _ "metrics st'"], assumption)
qed

text \<open>Claim C3, amended, at two brokers with the identities 3 and 4.\<close>

theorem populateFromTagMap_all_tags_present_witness:
  "distinct (map fst [(0::addr, [''broker_id:3'', ''instance-type:m5.xlarge'']),
        (1, [''instance-type:m5.large'', ''broker_id:4''])]) \<and>
   valFromTags [''broker_id:3'', ''instance-type:m5.xlarge''] ''broker_id'' = ''3'' \<and>
   valFromTags [''broker_id:3'', ''instance-type:m5.xlarge''] ''instance-type'' = ''m5.xlarge'' \<and>
   valFromTags [''instance-type:m5.large'', ''broker_id:4''] ''broker_id'' = ''4'' \<and>
   valFromTags [''instance-type:m5.large'', ''broker_id:4''] ''instance-type'' = ''m5.large'' \<and>
   parsedID ''broker_id'' [''broker_id:3'', ''instance-type:m5.xlarge''] = 3 \<and>
   parsedID ''broker_id'' [''instance-type:m5.large'', ''broker_id:4''] = 4 \<and>
   populateFromTagMap exampleHeap Map.empty
       [(0, [''broker_id:3'', ''instance-type:m5.xlarge'']),
        (1, [''instance-type:m5.large'', ''broker_id:4''])] ''broker_id'' =
     Returned
       (exampleHeap(0 := exampleHeap 0\<lparr>ID := 3, InstanceType := ''m5.xlarge''\<rparr>,
                    1 := exampleHeap 1\<lparr>ID := 4, InstanceType := ''m5.large''\<rparr>),
        [3 \<mapsto> 0, 4 \<mapsto> 1], None)"
  using populateFromTagMap_all_tags_present
    [where t = "[(0, [''broker_id:3'', ''instance-type:m5.xlarge'']),
        (1, [''instance-type:m5.large'', ''broker_id:4''])]"
       and h = exampleHeap and btag = "''broker_id''"]
  by (simp add: populate_eval parsedID_def)

text \<open>
  Claim C3, as stated, fails: two brokers with both tags and the same identity value
  give a map of one entry, not one entry per broker.
\<close>

theorem populateFromTagMap_same_identity_counterexample:
  "valFromTags [''broker_id:1'', ''instance-type:m5.xlarge''] ''broker_id'' = ''1'' \<and>
   valFromTags [''broker_id:1'', ''instance-type:m5.xlarge''] ''instance-type'' = ''m5.xlarge'' \<and>
   populateFromTagMap exampleHeap Map.empty
       [(0, [''broker_id:1'', ''instance-type:m5.xlarge'']),
        (1, [''broker_id:1'', ''instance-type:m5.xlarge''])] ''broker_id'' =
     Returned
       (exampleHeap(0 := exampleHeap 0\<lparr>ID := 1, InstanceType := ''m5.xlarge''\<rparr>,
                    1 := exampleHeap 1\<lparr>ID := 1, InstanceType := ''m5.xlarge''\<rparr>),
        [1 \<mapsto> 1], None) \<and>
   card (dom [(1::int) \<mapsto> (1::addr)]) \<noteq>
     length [(0::addr, [''broker_id:1'', ''instance-type:m5.xlarge'']),
        (1, [''broker_id:1'', ''instance-type:m5.xlarge''])]"
  by (simp add: populate_eval)

subsection \<open>Identity values that are not integers\<close>

lemma Atoi_syntax_zero: "snd (Atoi s) = Some ErrSyntax \<Longrightarrow> fst (Atoi s) = 0"
  by (auto simp: Atoi_def ParseInt_def Let_def split: if_splits)

text \<open>A value whose first byte is neither a sign nor a digit is a syntax error.\<close>

lemma Atoi_syntax_first:
  assumes "s = c # rest" and "c \<noteq> CHR ''+''" and "c \<noteq> CHR ''-''" and "\<not> isDigit c"
  shows "Atoi s = (0, Some ErrSyntax)"
  using assms by (simp add: Atoi_def ParseInt_def ParseUint_def Let_def)

text \<open>A range error gives one of the two bounds of a 64-bit \<^verbatim>\<open>int\<close>; a turn of the
  loop for a broker with an identity value does not panic.\<close>

lemma Atoi_range_bound:
  "snd (Atoi s) = Some ErrRange \<Longrightarrow> fst (Atoi s) = 2 ^ 63 - 1 \<or> fst (Atoi s) = - (2 ^ 63)"
  by (auto simp: Atoi_def ParseInt_def Let_def split: if_splits)

lemma populateStep_identity_present:
  assumes "valFromTags ht btag \<noteq> []"
  shows "\<exists>st'. populateStep btag st (b, ht) = Returned st' \<and>
           ID (heap st' b) = parsedID btag ht \<and> metrics st' (parsedID btag ht) = Some b \<and>
           missingTags st' =
             missingTags st @
               (if valFromTags ht ''instance-type'' \<noteq> [] then []
                else '' instance_type:'' @ Host (heap st b)) \<and>
           populateLoop btag st ((b, ht) # t) = populateLoop btag st' t"
proof -
  obtain st' where s: "populateStep btag st (b, ht) = Returned st'"
    using populateStep_total [of "(b, ht)" btag st] assms by auto
  have "ID (heap st' b) = parsedID btag ht"
    using populateStep_Returned(4) [OF s, of b] assms by simp
  moreover have "metrics st' (parsedID btag ht) = Some b"
    using populateStep_Returned(1) [OF s] assms by (simp add: insertIdentity_def)
  moreover have "missingTags st' =
             missingTags st @
               (if valFromTags ht ''instance-type'' \<noteq> [] then []
                else '' instance_type:'' @ Host (heap st b))"
    using populateStep_Returned(3) [OF s] assms by (simp add: report_def)
  moreover have "populateLoop btag st ((b, ht) # t) = populateLoop btag st' t"
    by (simp add: s)
  ultimately show ?thesis
    using s by (intro exI [of _ st'] conjI)
qed

text \<open>
  Claim C4, amended. For a broker whose identity value is not empty: when
  \<^verbatim>\<open>strconv.Atoi\<close> rejects the value with a syntax error, the turn of the loop does
  not panic and appends no missing-identity entry to the report (only the instance-type
  entry, when that value is empty), the broker's \<^verbatim>\<open>ID\<close> becomes 0, the broker is stored
  under the key 0, and the pass goes on with the next broker; when \<^verbatim>\<open>strconv.Atoi\<close>
  rejects it with a range error, the same holds with the bound \<open>2\<^sup>6\<^sup>3 - 1\<close> or \<open>-2\<^sup>6\<^sup>3\<close>
  as \<^verbatim>\<open>ID\<close> and key in place of 0. For a broker whose identity value is empty (the tag
  is absent, or there with an empty value), the identity step stores nothing, leaves
  the broker as it is and appends the missing-identity entry to the report.
\<close>

theorem populateStep_malformed_identity:
  "(valFromTags ht btag \<noteq> [] \<and> snd (Atoi (valFromTags ht btag)) = Some ErrSyntax \<longrightarrow>
      (\<exists>st'. populateStep btag st (b, ht) = Returned st' \<and>
         ID (heap st' b) = 0 \<and> metrics st' 0 = Some b \<and>
         missingTags st' =
           missingTags st @
             (if valFromTags ht ''instance-type'' \<noteq> [] then []
              else '' instance_type:'' @ Host (heap st b)) \<and>
         populateLoop btag st ((b, ht) # t) = populateLoop btag st' t)) \<and>
   (valFromTags ht btag \<noteq> [] \<and> snd (Atoi (valFromTags ht btag)) = Some ErrRange \<longrightarrow>
      (\<exists>st'. populateStep btag st (b, ht) = Returned st' \<and>
         (ID (heap st' b) = 2 ^ 63 - 1 \<or> ID (heap st' b) = - (2 ^ 63)) \<and>
         metrics st' (ID (heap st' b)) = Some b \<and>
         missingTags st' =
           missingTags st @
             (if valFromTags ht ''instance-type'' \<noteq> [] then []
              else '' instance_type:'' @ Host (heap st b)) \<and>
         populateLoop btag st ((b, ht) # t) = populateLoop btag st' t)) \<and>
   (valFromTags ht btag = [] \<longrightarrow>
      identityStep btag st b ht =
        st\<lparr>missingTags := missingTags st @ ('' '' @ btag @ '':'' @ Host (heap st b))\<rparr>)"
proof (intro conjI impI)
  assume a: "valFromTags ht btag \<noteq> [] \<and> snd (Atoi (valFromTags ht btag)) = Some ErrSyntax"
  then have z: "parsedID btag ht = 0"
    by (simp add: parsedID_def Atoi_syntax_zero)
  show "\<exists>st'. populateStep btag st (b, ht) = Returned st' \<and>
         ID (heap st' b) = 0 \<and> metrics st' 0 = Some b \<and>
         missingTags st' =
           missingTags st @
             (if valFromTags ht ''instance-type'' \<noteq> [] then []
              else '' instance_type:'' @ Host (heap st b)) \<and>
         populateLoop btag st ((b, ht) # t) = populateLoop btag st' t"
    using populateStep_identity_present [OF conjunct1 [OF a], of st b t]
    by (simp only: z)
next
  assume a: "valFromTags ht btag \<noteq> [] \<and> snd (Atoi (valFromTags ht btag)) = Some ErrRange"
  then have r: "parsedID btag ht = 2 ^ 63 - 1 \<or> parsedID btag ht = - (2 ^ 63)"
    using Atoi_range_bound [of "valFromTags ht btag"] by (simp add: parsedID_def)
  obtain st' where s: "populateStep btag st (b, ht) = Returned st'"
    and i: "ID (heap st' b) = parsedID btag ht"
    and m: "metrics st' (parsedID btag ht) = Some b"
    and g: "missingTags st' =
           missingTags st @
             (if valFromTags ht ''instance-type'' \<noteq> [] then []
              else '' instance_type:'' @ Host (heap st b))"
    and l: "populateLoop btag st ((b, ht) # t) = populateLoop btag st' t"
    using populateStep_identity_present [OF conjunct1 [OF a], of st b t] by blast
  have "ID (heap st' b) = 2 ^ 63 - 1 \<or> ID (heap st' b) = - (2 ^ 63)"
    using r by (simp only: i)
  moreover have "metrics st' (ID (heap st' b)) = Some b"
    using m by (simp only: i)
  ultimately show "\<exists>st'. populateStep btag st (b, ht) = Returned st' \<and>
         (ID (heap st' b) = 2 ^ 63 - 1 \<or> ID (heap st' b) = - (2 ^ 63)) \<and>
         metrics st' (ID (heap st' b)) = Some b \<and>
         missingTags st' =
           missingTags st @
             (if valFromTags ht ''instance-type'' \<noteq> [] then []
              else '' instance_type:'' @ Host (heap st b)) \<and>
         populateLoop btag st ((b, ht) # t) = populateLoop btag st' t"
    using s g l by (intro exI [of _ st'] conjI)
next
  assume "valFromTags ht btag = []"
  then show "identityStep btag st b ht =
        st\<lparr>missingTags := missingTags st @ ('' '' @ btag @ '':'' @ Host (heap st b))\<rparr>"
    by (simp add: identityStep_def)
qed

text \<open>Claim C4, amended, at the identity values \<^verbatim>\<open>abc\<close>, \<^verbatim>\<open>9223372036854775808\<close> and
  the empty value of the tag \<^verbatim>\<open>broker_id:\<close>.\<close>

theorem populateStep_malformed_identity_witness:
  "valFromTags [''broker_id:abc''] ''broker_id'' = ''abc'' \<and>
   snd (Atoi ''abc'') = Some ErrSyntax \<and>
   populateFromTagMap exampleHeap Map.empty [(0, [''broker_id:abc''])] ''broker_id'' =
     Returned (exampleHeap, [0 \<mapsto> 0],
       Some (PartialResults ''Host tags missing for:  instance_type:broker-1'')) \<and>
   valFromTags [''broker_id:9223372036854775808''] ''broker_id'' = ''9223372036854775808'' \<and>
   Atoi ''9223372036854775808'' = (9223372036854775807, Some ErrRange) \<and>
   populateFromTagMap exampleHeap Map.empty [(0, [''broker_id:9223372036854775808''])]
       ''broker_id'' =
     Returned (exampleHeap(0 := exampleHeap 0\<lparr>ID := 9223372036854775807\<rparr>),
       [9223372036854775807 \<mapsto> 0],
       Some (PartialResults ''Host tags missing for:  instance_type:broker-1'')) \<and>
   valFromTags [''broker_id:''] ''broker_id'' = [] \<and>
   identityStep ''broker_id'' \<lparr>heap = exampleHeap, metrics = Map.empty, missingTags = []\<rparr> 0
       [''broker_id:''] =
     \<lparr>heap = exampleHeap, metrics = Map.empty, missingTags = '' broker_id:broker-1''\<rparr>"
  using populateStep_malformed_identity
    [where ht = "[''broker_id:abc'']" and btag = "''broker_id''" and b = 0 and t = "[]"
       and st = "\<lparr>heap = exampleHeap, metrics = Map.empty, missingTags = []\<rparr>"]
    populateStep_malformed_identity
    [where ht = "[''broker_id:9223372036854775808'']" and btag = "''broker_id''" and b = 0
       and t = "[]"
       and st = "\<lparr>heap = exampleHeap, metrics = Map.empty, missingTags = []\<rparr>"]
    populateStep_malformed_identity
    [where ht = "[''broker_id:'']" and btag = "''broker_id''" and b = 0 and t = "[]"
       and st = "\<lparr>heap = exampleHeap, metrics = Map.empty, missingTags = []\<rparr>"]
  by (simp add: populate_eval fun_upd_idem)

text \<open>
  Claim C4, as stated, fails: the tag \<^verbatim>\<open>broker_id:\<close> is an identity tag whose value,
  the empty string, is not a valid integer; the broker is reported as missing the tag
  and is not inserted under the key 0.
\<close>

theorem populateFromTagMap_empty_identity_value_counterexample:
  "HasPrefix ''broker_id:'' (''broker_id'' @ '':'') \<and>
   snd (Atoi (drop (length ''broker_id:'') ''broker_id:'')) = Some ErrSyntax \<and>
   populateFromTagMap exampleHeap Map.empty [(0, [''broker_id:''])] ''broker_id'' =
     Returned (exampleHeap, Map.empty,
       Some (PartialResults
         ''Host tags missing for:  broker_id:broker-1 instance_type:broker-1''))"
  by (simp add: populate_eval)

text \<open>A numeral out of the range of a 64-bit \<^verbatim>\<open>int\<close> is not parsed to 0 either, but to
  the nearest bound, also when bytes that are not digits follow the overflow.\<close>

lemma Atoi_out_of_range_example:
  "Atoi ''9223372036854775808'' = (9223372036854775807, Some ErrRange) \<and>
   Atoi ''99999999999999999999x'' = (9223372036854775807, Some ErrRange)"
  by (simp add: populate_eval)

subsection \<open>The instance-type tag without the identity tag\<close>

text \<open>
  Claim C1 does not hold of the code. On the second scenario of the specification, one
  broker of host \<^verbatim>\<open>broker-1\<close> with the tags \<^verbatim>\<open>instance-type:m5.xlarge\<close> only,
  \<^verbatim>\<open>populateFromTagMap\<close> panics: \<^verbatim>\<open>bm[b.ID]\<close> is the nil pointer.
\<close>

theorem populateFromTagMap_panics_without_identity:
  "populateFromTagMap exampleHeap Map.empty [(0, [''instance-type:m5.xlarge''])] ''broker_id''
     = Panic"
  by (simp add: populate_eval)

text \<open>In general the turn panics when the identity value is empty, the instance-type
  value is not, and the map has no entry under the broker's current \<^verbatim>\<open>ID\<close>. When it
  has one, the instance type is written to the broker stored there.\<close>

lemma populateLoop_Panic:
  assumes "valFromTags ht btag = []" and "valFromTags ht ''instance-type'' \<noteq> []"
    and "metrics st (ID (heap st b)) = None"
  shows "populateLoop btag st ((b, ht) # t) = Panic"
  using assms populateStep_Panic_iff [of btag st "(b, ht)"] by simp

lemma populateFromTagMap_overwrites_other_broker:
  "populateFromTagMap exampleHeap Map.empty
     [(0, [''broker_id:0'', ''instance-type:m5.xlarge'']), (1, [''instance-type:c5.large''])]
     ''broker_id'' =
   Returned (exampleHeap(0 := exampleHeap 0\<lparr>InstanceType := ''c5.large''\<rparr>), [0 \<mapsto> 0],
     Some (PartialResults ''Host tags missing for:  broker_id:broker-2''))"
  by (simp add: populate_eval fun_upd_idem)

subsection \<open>What the pass returns with a report that is not empty\<close>

text \<open>
  Claim C6, amended. Whenever \<^verbatim>\<open>populateFromTagMap\<close> returns, with an error or without,
  the receiver holds every entry the pass inserted, and the error is the partial-results
  error made of the report when the report is not empty. Its caller
  \<^verbatim>\<open>brokerMetricsFromList\<close> then returns that error with the nil map: the entries
  are not handed on.
\<close>

theorem populateFromTagMap_keeps_entries_caller_drops:
  "(populateFromTagMap h bm t btag = Returned (h', bm', err) \<longrightarrow>
      bm' = foldl (insertIdentity btag) bm t \<and>
      err =
        (if concat (map (\<lambda>e. report btag (Host (h (fst e))) (snd e)) t) \<noteq> [] then
           Some (PartialResults (''Host tags missing for: '' @
             concat (map (\<lambda>e. report btag (Host (h (fst e))) (snd e)) t)))
         else None)) \<and>
   (getHostTagMap GetHostTags h l = Inr tags \<and>
    populateFromTagMap h Map.empty (entries tags visit) btag = Returned (h', bm', Some e) \<longrightarrow>
      brokerMetricsFromList GetHostTags visit btag h l = Returned (h', None, Some e))"
proof (rule conjI)
  show "populateFromTagMap h bm t btag = Returned (h', bm', err) \<longrightarrow>
      bm' = foldl (insertIdentity btag) bm t \<and>
      err =
        (if concat (map (\<lambda>e. report btag (Host (h (fst e))) (snd e)) t) \<noteq> [] then
           Some (PartialResults (''Host tags missing for: '' @
             concat (map (\<lambda>e. report btag (Host (h (fst e))) (snd e)) t)))
         else None)"
  proof
    let ?st0 = "\<lparr>heap = h, metrics = bm, missingTags = []\<rparr>"
    assume "populateFromTagMap h bm t btag = Returned (h', bm', err)"
    then obtain st' where l: "populateLoop btag ?st0 t = Returned st'"
      and r: "bm' = metrics st'"
      and e: "err = (if missingTags st' \<noteq> [] then
                Some (PartialResults (''Host tags missing for: '' @ missingTags st')) else None)"
      by (auto simp: populateFromTagMap_def split: result.splits)
    have "missingTags st' = concat (map (\<lambda>e. report btag (Host (h (fst e))) (snd e)) t)"
      using populateLoop_missingTags [OF l] by simp
    moreover have "metrics st' = foldl (insertIdentity btag) bm t"
      using populateLoop_metrics [OF l] by simp
    ultimately show "bm' = foldl (insertIdentity btag) bm t \<and>
      err =
        (if concat (map (\<lambda>e. report btag (Host (h (fst e))) (snd e)) t) \<noteq> [] then
           Some (PartialResults (''Host tags missing for: '' @
             concat (map (\<lambda>e. report btag (Host (h (fst e))) (snd e)) t)))
         else None)"
      using r e by simp
  qed
  show "getHostTagMap GetHostTags h l = Inr tags \<and>
    populateFromTagMap h Map.empty (entries tags visit) btag = Returned (h', bm', Some e) \<longrightarrow>
      brokerMetricsFromList GetHostTags visit btag h l = Returned (h', None, Some e)"
    by (simp add: brokerMetricsFromList_def)
qed

text \<open>One broker with the identity tag and no instance-type tag.\<close>

lemma getHostTagMap_example:
  "getHostTagMap exampleGetHostTags exampleHeap [0] = Inr [0 \<mapsto> [''broker_id:3'']]"
  by (simp add: getHostTagMap_def exampleGetHostTags_def)

lemma entries_example: "entries [0 \<mapsto> [''broker_id:3'']] [0] = [(0, [''broker_id:3''])]"
  by (simp add: entries_def List.map_filter_def)

lemma populateFromTagMap_example_no_instance_type:
  "populateFromTagMap exampleHeap Map.empty [(0, [''broker_id:3''])] ''broker_id'' =
     Returned (exampleHeap(0 := exampleHeap 0\<lparr>ID := 3\<rparr>), [3 \<mapsto> 0],
       Some (PartialResults ''Host tags missing for:  instance_type:broker-1''))"
  by (simp add: populate_eval)

text \<open>Claim C6, amended, at that broker.\<close>

theorem populateFromTagMap_keeps_entries_caller_drops_witness:
  "populateFromTagMap exampleHeap Map.empty [(0, [''broker_id:3''])] ''broker_id'' =
     Returned (exampleHeap(0 := exampleHeap 0\<lparr>ID := 3\<rparr>), [3 \<mapsto> 0],
       Some (PartialResults ''Host tags missing for:  instance_type:broker-1'')) \<and>
   [3 \<mapsto> 0] = foldl (insertIdentity ''broker_id'') Map.empty [(0::addr, [''broker_id:3''])] \<and>
   getHostTagMap exampleGetHostTags exampleHeap [0] = Inr [0 \<mapsto> [''broker_id:3'']] \<and>
   brokerMetricsFromList exampleGetHostTags [0] ''broker_id'' exampleHeap [0] =
     Returned (exampleHeap(0 := exampleHeap 0\<lparr>ID := 3\<rparr>), None,
       Some (PartialResults ''Host tags missing for:  instance_type:broker-1''))"
  using populateFromTagMap_keeps_entries_caller_drops
    [where h = exampleHeap and bm = Map.empty and t = "[(0, [''broker_id:3''])]"
       and btag = "''broker_id''" and h' = "exampleHeap(0 := exampleHeap 0\<lparr>ID := 3\<rparr>)"
       and bm' = "[3 \<mapsto> 0]"
       and err = "Some (PartialResults ''Host tags missing for:  instance_type:broker-1'')"
       and e = "PartialResults ''Host tags missing for:  instance_type:broker-1''"
       and GetHostTags = exampleGetHostTags and l = "[0]" and visit = "[0]"
       and tags = "[0 \<mapsto> [''broker_id:3'']]"]
    populateFromTagMap_example_no_instance_type getHostTagMap_example entries_example
  by simp

text \<open>
  Claim C6, as stated, fails for \<^verbatim>\<open>brokerMetricsFromList\<close>: the pass reconciles the
  broker under the key 3 and reports the missing instance type; the operation returns
  the error and the nil map, not the entry.
\<close>

theorem brokerMetricsFromList_drops_entries_counterexample:
  "populateFromTagMap exampleHeap Map.empty (entries [0 \<mapsto> [''broker_id:3'']] [0]) ''broker_id'' =
     Returned (exampleHeap(0 := exampleHeap 0\<lparr>ID := 3\<rparr>), [3 \<mapsto> 0],
       Some (PartialResults ''Host tags missing for:  instance_type:broker-1'')) \<and>
   brokerMetricsFromList exampleGetHostTags [0] ''broker_id'' exampleHeap [0] =
     Returned (exampleHeap(0 := exampleHeap 0\<lparr>ID := 3\<rparr>), None,
       Some (PartialResults ''Host tags missing for:  instance_type:broker-1''))"
  by (simp add: brokerMetricsFromList_def getHostTagMap_example entries_example
      populateFromTagMap_example_no_instance_type)

subsection \<open>Claims about brokersFromSeries\<close>

lemma brokersFromSeries_loop_all:
  "\<forall>ts\<in>set s. \<exists>t v rest. Points ts = (t, Some v) # rest \<Longrightarrow>
     \<exists>bs'. brokersFromSeries_loop bs s = Returned (Inr (bs @ bs')) \<and>
       list_all2
         (\<lambda>ts b. \<exists>t v rest. Points ts = (t, Some v) # rest \<and>
            b = \<lparr>ID = 0, Host = tagValFromScope (Scope ts) ''host'', InstanceType = [],
                 NetTX = v / 1024 / 1024\<rparr>) s bs'"
proof (induction s arbitrary: bs)
  case Nil
  then show ?case by simp
next
  case (Cons ts s)
  then obtain t v rest where p: "Points ts = (t, Some v) # rest"
    by auto
  let ?b = "\<lparr>ID = 0, Host = tagValFromScope (Scope ts) ''host'', InstanceType = [],
               NetTX = v / 1024 / 1024\<rparr>"
  obtain bs' where l: "brokersFromSeries_loop (bs @ [?b]) s = Returned (Inr ((bs @ [?b]) @ bs'))"
    and a: "list_all2
         (\<lambda>ts b. \<exists>t v rest. Points ts = (t, Some v) # rest \<and>
            b = \<lparr>ID = 0, Host = tagValFromScope (Scope ts) ''host'', InstanceType = [],
                 NetTX = v / 1024 / 1024\<rparr>) s bs'"
    using Cons.IH [of "bs @ [?b]"] Cons.prems by auto
  have "brokersFromSeries_loop bs (ts # s) = Returned (Inr (bs @ (?b # bs')))"
    using l p by (simp add: Let_def)
  moreover have "list_all2
         (\<lambda>ts b. \<exists>t v rest. Points ts = (t, Some v) # rest \<and>
            b = \<lparr>ID = 0, Host = tagValFromScope (Scope ts) ''host'', InstanceType = [],
                 NetTX = v / 1024 / 1024\<rparr>) (ts # s) (?b # bs')"
    using a p by simp
  ultimately show ?case
    by blast
qed

lemma brokersFromSeries_loop_abort:
  "\<forall>ts\<in>set pre. \<exists>t v rest. Points ts = (t, Some v) # rest \<Longrightarrow> Points tse = [] \<Longrightarrow>
     brokersFromSeries_loop bs (pre @ tse # post) =
       Returned (Inl (PartialResults
         (''no points for host '' @ tagValFromScope (Scope tse) ''host'')))"
proof (induction pre arbitrary: bs)
  case Nil
  then show ?case by (simp add: Let_def)
next
  case (Cons ts pre)
  then obtain t v rest where p: "Points ts = (t, Some v) # rest"
    by auto
  show ?case
    using Cons p by (simp add: Let_def)
qed

text \<open>
  What \<^verbatim>\<open>brokersFromSeries\<close> does on the inputs it handles. If every series has at
  least one point and the value of its first point is there (the pointer is not nil),
  it returns one broker per series, in the order of the series, whose \<^verbatim>\<open>NetTX\<close> is
  that value divided by 1024 twice and whose \<^verbatim>\<open>Host\<close> is the \<^verbatim>\<open>host\<close> tag extracted
  from the scope. If a series has no point and the series before it are as above, it
  returns no list but the partial-results error that names the host of that series, at
  once.
\<close>

lemma brokersFromSeries_mapping:
  "((\<forall>ts\<in>set s. \<exists>t v rest. Points ts = (t, Some v) # rest) \<longrightarrow>
      (\<exists>bs. brokersFromSeries s = Returned (Inr bs) \<and>
         list_all2
           (\<lambda>ts b. \<exists>t v rest. Points ts = (t, Some v) # rest \<and>
              b = \<lparr>ID = 0, Host = tagValFromScope (Scope ts) ''host'', InstanceType = [],
                   NetTX = v / 1024 / 1024\<rparr>) s bs)) \<and>
   ((\<forall>ts\<in>set pre. \<exists>t v rest. Points ts = (t, Some v) # rest) \<and> Points tse = [] \<longrightarrow>
      brokersFromSeries (pre @ tse # post) =
        Returned (Inl (PartialResults
          (''no points for host '' @ tagValFromScope (Scope tse) ''host''))))"
  unfolding brokersFromSeries_def
  using brokersFromSeries_loop_all [of s "[]"] brokersFromSeries_loop_abort [of pre tse "[]" post]
  by simp

text \<open>The series of the specification's scenario, alone and followed by two series
  without points.\<close>

lemma brokersFromSeries_mapping_example:
  "brokersFromSeries
     [\<lparr>Scope = ''host:broker-1,env:prod'', Points = [(Some 1575317847, Some (104857600::real))]\<rparr>] =
     Returned (Inr [\<lparr>ID = 0, Host = ''broker-1'', InstanceType = [], NetTX = 100\<rparr>]) \<and>
   brokersFromSeries
     ([\<lparr>Scope = ''host:broker-1,env:prod'', Points = [(Some 1575317847, Some (104857600::real))]\<rparr>] @
      \<lparr>Scope = ''host:broker-2'', Points = []\<rparr> #
      [\<lparr>Scope = ''host:broker-3'', Points = []\<rparr>]) =
     Returned (Inl (PartialResults ''no points for host broker-2''))"
  using brokersFromSeries_mapping
    [where s = "[\<lparr>Scope = ''host:broker-1,env:prod'',
                   Points = [(Some 1575317847, Some (104857600::real))]\<rparr>]"
       and pre = "[\<lparr>Scope = ''host:broker-1,env:prod'',
                   Points = [(Some 1575317847, Some (104857600::real))]\<rparr>]"
       and tse = "\<lparr>Scope = ''host:broker-2'', Points = []\<rparr>"
       and post = "[\<lparr>Scope = ''host:broker-3'', Points = []\<rparr>]"]
  by (simp add: list_all2_Cons1 tagValFromScope_def valFromTags_def HasPrefix_def)

text \<open>
  Claim C5 does not hold of the code. A series with one point whose value is the nil
  pointer has at least one point, and \<^verbatim>\<open>brokersFromSeries\<close> panics on it at the
  dereference \<^verbatim>\<open>*ts.Points[0][1]\<close>: it returns neither the brokers nor an error, where
  a series without points gets the partial-results error.
\<close>

theorem brokersFromSeries_panics_on_nil_value:
  "Points \<lparr>Scope = ''host:broker-1'', Points = [(Some 1575317847, None :: real option)]\<rparr> \<noteq> [] \<and>
   brokersFromSeries
     [\<lparr>Scope = ''host:broker-1'', Points = [(Some 1575317847, None :: real option)]\<rparr>] = Panic"
  by (simp add: brokersFromSeries_def)

end
